theory Spec2Isabelle
  imports Complex_Main
begin

section \<open>Python values, dictionaries and outcomes\<close>

text \<open>
  The pipeline of \<^verbatim>\<open>src/models/topic_model.py\<close> works on article dictionaries.
  A dictionary is an association list in insertion order (what a Python dict iterates
  and serialises in); a value is one of the kinds the pipeline reads or writes.
  A Python float is idealised as a rational number, so \<^verbatim>\<open>count / total\<close> is exact
  division. The elements of the article list are taken to be distinct objects.
\<close>

datatype pyval = PNone | PStr string | PInt int | PFloats "rat list"

type_synonym pydict = "(string \<times> pyval) list"

datatype py_error = ValueError | TypeError | LibraryError string

datatype 'a outcome = Returned 'a | Raised py_error

text \<open>\<^verbatim>\<open>d[k] = v\<close>: an existing key keeps its position, a new key goes last.\<close>

fun dict_set :: "'k \<Rightarrow> 'v \<Rightarrow> ('k \<times> 'v) list \<Rightarrow> ('k \<times> 'v) list" where
  "dict_set k v [] = [(k, v)]"
| "dict_set k v (p # d) = (if fst p = k then (k, v) # d else p # dict_set k v d)"

text \<open>\<^verbatim>\<open>d.get(k, default)\<close>; \<^verbatim>\<open>d.get(k)\<close> is \<open>dict_get d k PNone\<close>.\<close>

definition dict_get :: "pydict \<Rightarrow> string \<Rightarrow> pyval \<Rightarrow> pyval" where
  "dict_get d k dflt = (case map_of d k of None \<Rightarrow> dflt | Some v \<Rightarrow> v)"

text \<open>Truth value of a Python object in an \<^verbatim>\<open>if\<close>.\<close>

fun truthy :: "pyval \<Rightarrow> bool" where
  "truthy PNone = False"
| "truthy (PStr s) = (s \<noteq> [])"
| "truthy (PInt i) = (i \<noteq> 0)"
| "truthy (PFloats xs) = (xs \<noteq> [])"

text \<open>A list is not hashable: it cannot enter a set or be looked up in a dict.\<close>

fun hashable :: "pyval \<Rightarrow> bool" where
  "hashable (PFloats xs) = False"
| "hashable v = True"

section \<open>The external libraries\<close>

text \<open>
  scikit-learn, BERTopic, the database and the text preprocessing are not code of the
  repository: they are parameters. A fitted scikit-learn model gives, for each row of
  \<^verbatim>\<open>components_\<close>, the ten top words with their weights, and the matrix
  \<^verbatim>\<open>transform(dtm)\<close> with one row per text. A fitted BERTopic model gives the rows of
  \<^verbatim>\<open>get_topic_info()\<close> (topic id and count) and \<^verbatim>\<open>get_topic\<close>. An exception raised
  inside a library is the \<open>Inl\<close> of its result. \<open>hash_rank\<close> is the order in which
  this process iterates a set (it follows the hash values, which change from one
  process to the next); \<open>today\<close> is the current date.
\<close>

record sk_model =
  components :: "(string list \<times> rat list) list"
  doc_topic :: "rat list list"

record bert_model =
  topic_info :: "(int \<times> nat) list"
  get_topic :: "int \<Rightarrow> (string \<times> rat) list"

record env =
  SKLEARN_AVAILABLE :: bool
  BERTOPIC_AVAILABLE :: bool
  lda_fit :: "pyval list \<Rightarrow> int \<Rightarrow> py_error + sk_model"
  nmf_fit :: "pyval list \<Rightarrow> int \<Rightarrow> py_error + sk_model"
  bertopic_fit :: "pyval list \<Rightarrow> py_error + bert_model"
  hash_rank :: "pyval \<Rightarrow> nat"
  today :: string
  get_articles_by_date :: "string \<Rightarrow> string \<Rightarrow> pydict list"
  preprocess_article :: "pydict \<Rightarrow> string"

text \<open>\<^verbatim>\<open>list(set(values))\<close>: the distinct values, in the order of this process.\<close>

definition list_of_set :: "env \<Rightarrow> pyval list \<Rightarrow> pyval list" where
  "list_of_set e vs = sort_key (hash_rank e) (remdups vs)"

text \<open>
  \<^verbatim>\<open>np.argmax\<close> of a vector: the index of the first occurrence of the maximum; an
  empty vector raises ValueError (here \<open>None\<close>).
\<close>

fun argmax_from :: "rat list \<Rightarrow> nat \<Rightarrow> rat \<Rightarrow> nat \<Rightarrow> nat" where
  "argmax_from [] i best bi = bi"
| "argmax_from (x # xs) i best bi =
     (if best < x then argmax_from xs (Suc i) x i else argmax_from xs (Suc i) best bi)"

definition np_argmax :: "rat list \<Rightarrow> nat option" where
  "np_argmax xs = (case xs of [] \<Rightarrow> None | x # ys \<Rightarrow> Some (argmax_from ys 1 x 0))"

text \<open>
  \<^verbatim>\<open>str.capitalize\<close> on ASCII letters: first character upper case, the rest lower.
  The two cases of a letter differ in the bit of value 32.
\<close>

fun ascii_upper :: "char \<Rightarrow> char" where
  "ascii_upper (Char b0 b1 b2 b3 b4 b5 b6 b7) =
     (let n = (of_char (Char b0 b1 b2 b3 b4 b5 b6 b7) :: nat)
      in if 97 \<le> n \<and> n \<le> 122 then Char b0 b1 b2 b3 b4 False b6 b7
         else Char b0 b1 b2 b3 b4 b5 b6 b7)"

fun ascii_lower :: "char \<Rightarrow> char" where
  "ascii_lower (Char b0 b1 b2 b3 b4 b5 b6 b7) =
     (let n = (of_char (Char b0 b1 b2 b3 b4 b5 b6 b7) :: nat)
      in if 65 \<le> n \<and> n \<le> 90 then Char b0 b1 b2 b3 b4 True b6 b7
         else Char b0 b1 b2 b3 b4 b5 b6 b7)"

definition capitalize :: "string \<Rightarrow> string" where
  "capitalize s = (case s of [] \<Rightarrow> [] | c # cs \<Rightarrow> ascii_upper c # map ascii_lower cs)"

section \<open>The backends\<close>

record raw_topic =
  topic_id :: int
  words :: "string list"
  weights :: "rat list"
  count :: "nat option"

text \<open>
  What a backend function returns: the pair \<^verbatim>\<open>(None, None)\<close> when its library is
  missing, or the four-tuple, of which the caller keeps the first two components.
\<close>

datatype sk_ret = NoneNone | Fitted "raw_topic list" "rat list list"

datatype bert_ret = BNoneNone | BTuple "raw_topic list option"

text \<open>The loop \<^verbatim>\<open>for topic_idx, topic in enumerate(model.components_)\<close>.\<close>

definition extract_topics :: "(string list \<times> rat list) list \<Rightarrow> raw_topic list" where
  "extract_topics comps =
     map (\<lambda>(topic_idx, (ws, wts)).
           \<lparr>topic_id = int topic_idx, words = ws, weights = wts, count = None\<rparr>)
         (enumerate 0 comps)"

definition perform_lda_sklearn :: "env \<Rightarrow> pyval list \<Rightarrow> int \<Rightarrow> py_error + sk_ret" where
  "perform_lda_sklearn e texts n_topics =
     (if \<not> SKLEARN_AVAILABLE e then Inr NoneNone
      else case lda_fit e texts n_topics of
             Inl err \<Rightarrow> Inl err
           | Inr m \<Rightarrow> Inr (Fitted (extract_topics (components m)) (doc_topic m)))"

definition perform_nmf :: "env \<Rightarrow> pyval list \<Rightarrow> int \<Rightarrow> py_error + sk_ret" where
  "perform_nmf e texts n_topics =
     (if \<not> SKLEARN_AVAILABLE e then Inr NoneNone
      else case nmf_fit e texts n_topics of
             Inl err \<Rightarrow> Inl err
           | Inr m \<Rightarrow> Inr (Fitted (extract_topics (components m)) (doc_topic m)))"

text \<open>
  \<^verbatim>\<open>try_bertopic\<close>: the rows of the topic table other than the outlier topic -1; any
  exception is caught and gives four times None.
\<close>

definition topic_representations :: "bert_model \<Rightarrow> raw_topic list" where
  "topic_representations m =
     map (\<lambda>(tid, cnt).
           \<lparr>topic_id = tid, words = map fst (get_topic m tid),
            weights = map snd (get_topic m tid), count = Some cnt\<rparr>)
         (filter (\<lambda>(tid, cnt). tid \<noteq> - 1) (topic_info m))"

definition try_bertopic :: "env \<Rightarrow> pyval list \<Rightarrow> bert_ret" where
  "try_bertopic e texts =
     (if \<not> BERTOPIC_AVAILABLE e then BNoneNone
      else case bertopic_fit e texts of
             Inl err \<Rightarrow> BTuple None
           | Inr m \<Rightarrow> BTuple (Some (topic_representations m)))"

definition generate_topic_label :: "string list \<Rightarrow> string" where
  "generate_topic_label topic_words =
     (case topic_words of [] \<Rightarrow> ''Miscellaneous'' | w # ws \<Rightarrow> capitalize w)"

section \<open>process_articles_for_topics\<close>

record topic = raw_topic +
  label :: string
  articles :: "pydict list"
  newspaper_counts :: "(pyval \<times> nat) list"
  newspaper_weights :: "(pyval \<times> rat) list"

record result =
  date :: string
  algorithm :: string
  num_articles :: nat
  num_topics :: nat
  topics :: "topic list"

text \<open>Line 170: the texts of the articles whose preprocessed text is not empty.\<close>

definition has_text :: "pydict \<Rightarrow> bool" where
  "has_text a = truthy (dict_get a ''preprocessed_text'' PNone)"

definition preprocessed_texts :: "pydict list \<Rightarrow> pyval list" where
  "preprocessed_texts arts =
     map (\<lambda>a. dict_get a ''preprocessed_text'' (PStr [])) (filter has_text arts)"

text \<open>
  Lines 178-187: the choice of the backend. Unpacking the pair \<^verbatim>\<open>(None, None)\<close> into
  four names raises ValueError. In the BERTopic branch the name
  \<^verbatim>\<open>doc_topic_dists\<close> is never bound: the second component is \<open>None\<close>.
\<close>

definition unpack_sk :: "py_error + sk_ret \<Rightarrow> py_error + raw_topic list option \<times> rat list list option" where
  "unpack_sk r =
     (case r of
        Inl err \<Rightarrow> Inl err
      | Inr NoneNone \<Rightarrow> Inl ValueError
      | Inr (Fitted ts ds) \<Rightarrow> Inr (Some ts, Some ds))"

definition run_backend ::
  "env \<Rightarrow> string \<Rightarrow> pyval list \<Rightarrow> int \<Rightarrow> py_error + raw_topic list option \<times> rat list list option" where
  "run_backend e alg texts n_topics =
     (if alg = ''nmf'' then unpack_sk (perform_nmf e texts n_topics)
      else if alg = ''bertopic'' \<and> BERTOPIC_AVAILABLE e then
        (case try_bertopic e texts of
           BNoneNone \<Rightarrow> Inl ValueError
         | BTuple ts \<Rightarrow> Inr (ts, None))
      else unpack_sk (perform_lda_sklearn e texts n_topics))"

text \<open>
  Lines 197-207: the loop over \<^verbatim>\<open>enumerate(articles)\<close>, which writes two fields into
  each article. The result is the article list as the loop leaves it and the
  exception that stopped it, if any.
\<close>

fun assign_loop :: "rat list list \<Rightarrow> nat \<Rightarrow> pydict list \<Rightarrow> pydict list \<times> py_error option" where
  "assign_loop ds i [] = ([], None)"
| "assign_loop ds i (a # as) =
     (if i < length ds then
        (case np_argmax (ds ! i) of
           None \<Rightarrow> (a # as, Some ValueError)
         | Some k \<Rightarrow>
             (let a' = dict_set ''topic_distribution'' (PFloats (ds ! i))
                         (dict_set ''dominant_topic'' (PInt (int k)) a);
                  r = assign_loop ds (Suc i) as
              in (a' # fst r, snd r)))
      else
        (let a' = dict_set ''topic_distribution'' (PFloats [])
                    (dict_set ''dominant_topic'' (PInt (- 1)) a);
             r = assign_loop ds (Suc i) as
         in (a' # fst r, snd r)))"

definition assign_topics :: "rat list list option \<Rightarrow> pydict list \<Rightarrow> pydict list \<times> py_error option" where
  "assign_topics dists arts =
     (case dists of None \<Rightarrow> (arts, None) | Some ds \<Rightarrow> assign_loop ds 0 arts)"

text \<open>Lines 210-224: the dictionary from topic id to the articles of the topic.\<close>

definition init_articles_by_topic :: "raw_topic list \<Rightarrow> (int \<times> pydict list) list" where
  "init_articles_by_topic ts = fold (\<lambda>t abt. dict_set (topic_id t) [] abt) ts []"

definition article_summary :: "pydict \<Rightarrow> pydict" where
  "article_summary a =
     [(''article_id'', dict_get a ''article_id'' (PStr [])),
      (''title'', dict_get a ''title'' (PStr [])),
      (''newspaper'', dict_get a ''newspaper'' (PStr [])),
      (''url'', dict_get a ''url'' (PStr [])),
      (''summary'', dict_get a ''summary'' (PStr []))]"

fun group_articles ::
  "pydict list \<Rightarrow> (int \<times> pydict list) list \<Rightarrow> py_error + (int \<times> pydict list) list" where
  "group_articles [] abt = Inr abt"
| "group_articles (a # as) abt =
     (case map_of a ''dominant_topic'' of
        None \<Rightarrow> group_articles as abt
      | Some (PFloats xs) \<Rightarrow> Inl TypeError
      | Some (PInt k) \<Rightarrow>
          (case map_of abt k of
             None \<Rightarrow> group_articles as abt
           | Some l \<Rightarrow> group_articles as (dict_set k (l @ [article_summary a]) abt))
      | Some v \<Rightarrow> group_articles as abt)"

text \<open>Lines 227-232.\<close>

definition topic_articles :: "(int \<times> pydict list) list \<Rightarrow> int \<Rightarrow> pydict list" where
  "topic_articles abt tid = (case map_of abt tid of Some l \<Rightarrow> l | None \<Rightarrow> [])"

text \<open>Line 235: \<^verbatim>\<open>list(set(article.get('newspaper', '') for article in articles))\<close>.\<close>

definition newspapers_of :: "env \<Rightarrow> pydict list \<Rightarrow> py_error + pyval list" where
  "newspapers_of e arts =
     (let vs = map (\<lambda>a. dict_get a ''newspaper'' (PStr [])) arts
      in if list_all hashable vs then Inr (list_of_set e vs) else Inl TypeError)"

text \<open>
  Lines 240-252, the body of the loop over the newspapers. Lines 242 and 246 count
  with \<^verbatim>\<open>article.get('newspaper') == newspaper\<close>, once over the articles of the topic
  and once over all the articles.
\<close>

definition count_from :: "pydict list \<Rightarrow> pyval \<Rightarrow> nat" where
  "count_from arts newspaper =
     length (filter (\<lambda>a. dict_get a ''newspaper'' PNone = newspaper) arts)"

definition weight_of :: "nat \<Rightarrow> nat \<Rightarrow> rat" where
  "weight_of cnt n = (if 0 < n then of_nat cnt / of_nat n else 0)"

definition newspaper_step ::
  "pydict list \<Rightarrow> pydict list \<Rightarrow> pyval \<Rightarrow>
   (pyval \<times> nat) list \<times> (pyval \<times> rat) list \<Rightarrow> (pyval \<times> nat) list \<times> (pyval \<times> rat) list" where
  "newspaper_step arts tarts newspaper st =
     (let cnt = count_from tarts newspaper;
          total_articles_from_newspaper = count_from arts newspaper;
          weight = weight_of cnt total_articles_from_newspaper
      in (dict_set newspaper cnt (fst st), dict_set newspaper weight (snd st)))"

definition newspaper_stats ::
  "pydict list \<Rightarrow> pyval list \<Rightarrow> pydict list \<Rightarrow> (pyval \<times> nat) list \<times> (pyval \<times> rat) list" where
  "newspaper_stats arts newspapers tarts = fold (newspaper_step arts tarts) newspapers ([], [])"

text \<open>The topic dictionary with every key the function has set on it.\<close>

definition finish_topic ::
  "pydict list \<Rightarrow> pyval list \<Rightarrow> (int \<times> pydict list) list \<Rightarrow> raw_topic \<Rightarrow> topic" where
  "finish_topic arts newspapers abt t =
     (let tarts = topic_articles abt (topic_id t);
          st = newspaper_stats arts newspapers tarts
      in \<lparr>topic_id = topic_id t, words = words t, weights = weights t, count = count t,
          label = generate_topic_label (words t), articles = tarts,
          newspaper_counts = fst st, newspaper_weights = snd st\<rparr>)"

text \<open>
  The whole function. Its value is the article list as the call leaves it (the
  articles are the caller's objects, written in place) and what the call returns or
  raises. \<open>Returned None\<close> is Python's \<^verbatim>\<open>return None\<close>.
\<close>

definition process_articles_for_topics ::
  "env \<Rightarrow> pydict list \<Rightarrow> string \<Rightarrow> int \<Rightarrow> pydict list \<times> result option outcome" where
  "process_articles_for_topics e arts alg n_topics =
     (if preprocessed_texts arts = [] then (arts, Returned None)
      else case run_backend e alg (preprocessed_texts arts) n_topics of
        Inl err \<Rightarrow> (arts, Raised err)
      | Inr (None, dists) \<Rightarrow> (arts, Returned None)
      | Inr (Some ts, dists) \<Rightarrow>
          if ts = [] then (arts, Returned None)
          else case assign_topics dists arts of
            (arts1, Some err) \<Rightarrow> (arts1, Raised err)
          | (arts1, None) \<Rightarrow>
              (case group_articles arts1 (init_articles_by_topic ts) of
                 Inl err \<Rightarrow> (arts1, Raised err)
               | Inr abt \<Rightarrow>
                   (case newspapers_of e arts1 of
                      Inl err \<Rightarrow> (arts1, Raised err)
                    | Inr newspapers \<Rightarrow>
                        (arts1, Returned (Some
                           \<lparr>date = today e, algorithm = alg,
                            num_articles = length arts1, num_topics = length ts,
                            topics = map (finish_topic arts1 newspapers abt) ts\<rparr>)))))"

section \<open>Saving a result: process_single_day\<close>





section \<open>States of a document and comparison of results\<close>

text \<open>
  The assignment loop marks a document with the index of a topic, or with -1 when it
  has no row in the distribution array.
\<close>

definition assigned :: "pydict \<Rightarrow> bool" where
  "assigned a = (case map_of a ''dominant_topic'' of Some (PInt k) \<Rightarrow> 0 \<le> k | _ \<Rightarrow> False)"

definition unassigned :: "pydict \<Rightarrow> bool" where
  "unassigned a = (map_of a ''dominant_topic'' = Some (PInt (- 1)))"

text \<open>
  The backend sees only the texts that are not empty: the row of article \<open>i\<close> in the
  distribution array is the one at the position of its text among those texts.
\<close>

definition text_index :: "pydict list \<Rightarrow> nat \<Rightarrow> nat" where
  "text_index arts i = length (filter has_text (take i arts))"

text \<open>
  Two topics, and two results, that differ at most in the order of the keys of
  \<^verbatim>\<open>newspaper_counts\<close> and \<^verbatim>\<open>newspaper_weights\<close>.
\<close>

definition same_topic_stats :: "topic \<Rightarrow> topic \<Rightarrow> bool" where
  "same_topic_stats t t' =
     (topic_id t = topic_id t' \<and> words t = words t' \<and> weights t = weights t' \<and>
      count t = count t' \<and> label t = label t' \<and> articles t = articles t' \<and>
      set (newspaper_counts t) = set (newspaper_counts t') \<and>
      set (newspaper_weights t) = set (newspaper_weights t'))"

definition same_up_to_source_order :: "result \<Rightarrow> result \<Rightarrow> bool" where
  "same_up_to_source_order r r' =
     (date r = date r' \<and> algorithm r = algorithm r' \<and> num_articles r = num_articles r' \<and>
      num_topics r = num_topics r' \<and> list_all2 same_topic_stats (topics r) (topics r'))"

text \<open>The outcome of a call with the \<^verbatim>\<open>algorithm\<close> field of its result replaced.\<close>

definition with_algorithm :: "string \<Rightarrow> pydict list \<times> result option outcome \<Rightarrow> pydict list \<times> result option outcome" where
  "with_algorithm alg x =
     (case x of
        (arts', Returned (Some r)) \<Rightarrow> (arts', Returned (Some (r\<lparr>algorithm := alg\<rparr>)))
      | _ \<Rightarrow> x)"

section \<open>A small run\<close>

text \<open>
  Four articles of two newspapers, the first with an empty text, and a backend that
  finds two topics and gives each text a fixed distribution; the second text is a tie.
\<close>

definition demo_row :: "pyval \<Rightarrow> rat list" where
  "demo_row t =
     (if t = PStr ''governo legge'' then [3 / 4, 1 / 4]
      else if t = PStr ''governo calcio'' then [1 / 2, 1 / 2]
      else [1 / 4, 3 / 4])"

definition demo_fit :: "pyval list \<Rightarrow> int \<Rightarrow> py_error + sk_model" where
  "demo_fit texts n =
     Inr \<lparr>components = [([''governo'', ''legge''], [2, 1]), ([''calcio'', ''legge''], [3, 1])],
          doc_topic = map demo_row texts\<rparr>"

definition demo_title :: "pydict \<Rightarrow> string" where
  "demo_title a = (case map_of a ''title'' of Some (PStr s) \<Rightarrow> s | _ \<Rightarrow> [])"

definition demo_db :: "string \<Rightarrow> string \<Rightarrow> pydict list" where
  "demo_db date_str storage =
     (if date_str = ''2024-05-01'' then
        [[(''newspaper'', PStr ''Beta''), (''title'', PStr [])],
         [(''newspaper'', PStr ''Alpha''), (''title'', PStr ''governo legge'')],
         [(''newspaper'', PStr ''Beta''), (''title'', PStr ''governo calcio'')],
         [(''newspaper'', PStr ''Alpha''), (''title'', PStr ''calcio legge'')]]
      else if date_str = ''2024-05-02'' then
        [[(''newspaper'', PStr ''Beta''), (''title'', PStr [])],
         [(''newspaper'', PStr ''Alpha''), (''title'', PStr [])]]
      else [])"

definition demo_env :: env where
  "demo_env =
     \<lparr>SKLEARN_AVAILABLE = True, BERTOPIC_AVAILABLE = False,
      lda_fit = demo_fit, nmf_fit = demo_fit,
      bertopic_fit = (\<lambda>texts. Inl (LibraryError ''bertopic'')),
      hash_rank = (\<lambda>v. if v = PStr ''Beta'' then 1 else 0), today = ''2024-05-01'',
      get_articles_by_date = demo_db, preprocess_article = demo_title\<rparr>"

definition demo_articles :: "pydict list" where
  "demo_articles =
     [[(''newspaper'', PStr ''Beta''), (''title'', PStr []), (''preprocessed_text'', PStr [])],
      [(''newspaper'', PStr ''Alpha''), (''title'', PStr ''governo legge''),
       (''preprocessed_text'', PStr ''governo legge'')],
      [(''newspaper'', PStr ''Beta''), (''title'', PStr ''governo calcio''),
       (''preprocessed_text'', PStr ''governo calcio'')],
      [(''newspaper'', PStr ''Alpha''), (''title'', PStr ''calcio legge''),
       (''preprocessed_text'', PStr ''calcio legge'')]]"

text \<open>What the run leaves in the articles and returns, for a list of newspapers.\<close>

definition demo_after :: "pydict list" where
  "demo_after =
     [[(''newspaper'', PStr ''Beta''), (''title'', PStr []), (''preprocessed_text'', PStr []),
       (''dominant_topic'', PInt 0), (''topic_distribution'', PFloats [3 / 4, 1 / 4])],
      [(''newspaper'', PStr ''Alpha''), (''title'', PStr ''governo legge''),
       (''preprocessed_text'', PStr ''governo legge''), (''dominant_topic'', PInt 0),
       (''topic_distribution'', PFloats [1 / 2, 1 / 2])],
      [(''newspaper'', PStr ''Beta''), (''title'', PStr ''governo calcio''),
       (''preprocessed_text'', PStr ''governo calcio''), (''dominant_topic'', PInt 1),
       (''topic_distribution'', PFloats [1 / 4, 3 / 4])],
      [(''newspaper'', PStr ''Alpha''), (''title'', PStr ''calcio legge''),
       (''preprocessed_text'', PStr ''calcio legge''), (''dominant_topic'', PInt (- 1)),
       (''topic_distribution'', PFloats [])]]"

definition demo_topics :: "pyval list \<Rightarrow> topic list" where
  "demo_topics ns =
     [\<lparr>topic_id = 0, words = [''governo'', ''legge''], weights = [2, 1], count = None,
       label = ''Governo'',
       articles = [[(''article_id'', PStr []), (''title'', PStr []),
                    (''newspaper'', PStr ''Beta''), (''url'', PStr []), (''summary'', PStr [])],
                   [(''article_id'', PStr []), (''title'', PStr ''governo legge''),
                    (''newspaper'', PStr ''Alpha''), (''url'', PStr []), (''summary'', PStr [])]],
       newspaper_counts = map (\<lambda>n. (n, 1)) ns,
       newspaper_weights = map (\<lambda>n. (n, 1 / 2)) ns\<rparr>,
      \<lparr>topic_id = 1, words = [''calcio'', ''legge''], weights = [3, 1], count = None,
       label = ''Calcio'',
       articles = [[(''article_id'', PStr []), (''title'', PStr ''governo calcio''),
                    (''newspaper'', PStr ''Beta''), (''url'', PStr []), (''summary'', PStr [])]],
       newspaper_counts = map (\<lambda>n. (n, if n = PStr ''Beta'' then 1 else 0)) ns,
       newspaper_weights = map (\<lambda>n. (n, if n = PStr ''Beta'' then 1 / 2 else 0)) ns\<rparr>]"

definition demo_result :: result where
  "demo_result =
     \<lparr>date = ''2024-05-01'', algorithm = ''lda'', num_articles = 4, num_topics = 2,
      topics = demo_topics [PStr ''Alpha'', PStr ''Beta'']\<rparr>"

text \<open>A BERTopic backend whose topic table has the outlier topic -1 and one topic.\<close>

definition demo_bert_env :: env where
  "demo_bert_env =
     demo_env\<lparr>BERTOPIC_AVAILABLE := True,
              bertopic_fit := (\<lambda>texts. Inr \<lparr>topic_info = [(- 1, 1), (0, 2)],
                                            get_topic = (\<lambda>tid. [(''calcio'', 1 / 2)])\<rparr>)\<rparr>"

definition demo_bert_result :: result where
  "demo_bert_result =
     \<lparr>date = ''2024-05-01'', algorithm = ''bertopic'', num_articles = 4, num_topics = 1,
      topics =
        [\<lparr>topic_id = 0, words = [''calcio''], weights = [1 / 2], count = Some 2,
          label = ''Calcio'', articles = [],
          newspaper_counts = [(PStr ''Alpha'', 0), (PStr ''Beta'', 0)],
          newspaper_weights = [(PStr ''Alpha'', 0), (PStr ''Beta'', 0)]\<rparr>]\<rparr>"

text \<open>The same run in a process that iterates sets in another order.\<close>

definition demo_env2 :: env where
  "demo_env2 = demo_env\<lparr>hash_rank := (\<lambda>v. if v = PStr ''Alpha'' then 1 else 0)\<rparr>"

definition demo_result2 :: result where
  "demo_result2 = demo_result\<lparr>topics := demo_topics [PStr ''Beta'', PStr ''Alpha'']\<rparr>"

text \<open>
  A run with one topic, where every text gets topic 0, over three articles of which
  the first has the empty string as newspaper and the second has no newspaper field.
\<close>

definition demo_fit1 :: "pyval list \<Rightarrow> int \<Rightarrow> py_error + sk_model" where
  "demo_fit1 texts n =
     Inr \<lparr>components = [([''governo'', ''legge'', ''calcio''], [2, 2, 2])],
          doc_topic = map (\<lambda>t. [1]) texts\<rparr>"

definition demo_unsourced :: "pydict list" where
  "demo_unsourced =
     [[(''newspaper'', PStr []), (''preprocessed_text'', PStr ''governo legge'')],
      [(''preprocessed_text'', PStr ''governo calcio'')],
      [(''newspaper'', PStr ''Alpha''), (''preprocessed_text'', PStr ''calcio legge'')]]"

section \<open>Dictionaries and the assignment loop\<close>

lemma map_of_dict_set: "map_of (dict_set k v d) = (map_of d)(k \<mapsto> v)"
  by (induction d) (auto simp: fun_eq_iff)

lemma keys_dict_set:
  "map fst (dict_set k v d) = (if k \<in> fst ` set d then map fst d else map fst d @ [k])"
  by (induction d) auto


lemma argmax_from_bound:
  "bi < i \<Longrightarrow> argmax_from xs i best bi < i + length xs"
  by (induction xs i best bi rule: argmax_from.induct) auto

lemma np_argmax_Some: "xs \<noteq> [] \<Longrightarrow> \<exists>k. np_argmax xs = Some k \<and> k < length xs"
  using argmax_from_bound[of 0 1] by (cases xs) (auto simp: np_argmax_def)

lemma length_assign_loop: "length (fst (assign_loop ds i as)) = length as"
  by (induction as arbitrary: i) (auto simp: Let_def split: option.splits)

lemma assign_loop_frame:
  "j < length as \<Longrightarrow> k \<noteq> ''dominant_topic'' \<Longrightarrow> k \<noteq> ''topic_distribution'' \<Longrightarrow>
   map_of (fst (assign_loop ds i as) ! j) k = map_of (as ! j) k"
proof (induction as arbitrary: i j)
  case Nil
  then show ?case by simp
next
  case (Cons a as)
  then show ?case
    by (cases j) (auto simp: Let_def map_of_dict_set split: option.splits)
qed

lemma assign_loop_ok:
  "\<forall>r \<in> set ds. r \<noteq> [] \<Longrightarrow> snd (assign_loop ds i as) = None"
proof (induction as arbitrary: i)
  case Nil
  then show ?case by simp
next
  case (Cons a as)
  show ?case
  proof (cases "i < length ds")
    case True
    then have "ds ! i \<noteq> []" using Cons.prems by simp
    then obtain k where "np_argmax (ds ! i) = Some k" using np_argmax_Some by blast
    then show ?thesis using True Cons by (simp add: Let_def)
  next
    case False
    then show ?thesis using Cons by (simp add: Let_def)
  qed
qed

lemma assign_loop_nth:
  "snd (assign_loop ds i as) = None \<Longrightarrow> j < length as \<Longrightarrow>
   map_of (fst (assign_loop ds i as) ! j) ''dominant_topic'' =
     (if i + j < length ds then map_option (\<lambda>k. PInt (int k)) (np_argmax (ds ! (i + j)))
      else Some (PInt (- 1)))
   \<and> map_of (fst (assign_loop ds i as) ! j) ''topic_distribution'' =
     (if i + j < length ds then Some (PFloats (ds ! (i + j))) else Some (PFloats []))"
proof (induction as arbitrary: i j)
  case Nil
  then show ?case by simp
next
  case (Cons a as)
  show ?case
  proof (cases j)
    case 0
    then show ?thesis using Cons.prems
      by (auto simp: Let_def map_of_dict_set split: option.splits if_splits)
  next
    case (Suc j')
    then show ?thesis using Cons.prems Cons.IH[of "Suc i" j']
      by (auto simp: Let_def split: option.splits if_splits)
  qed
qed

section \<open>The stages of the function\<close>

lemma length_assign_topics: "length (fst (assign_topics dists arts)) = length arts"
  by (cases dists) (simp_all add: assign_topics_def length_assign_loop)

lemma process_SomeD:
  assumes "process_articles_for_topics e arts alg n = (arts', Returned (Some r))"
  shows "\<exists>ts dists abt ns.
           preprocessed_texts arts \<noteq> [] \<and>
           run_backend e alg (preprocessed_texts arts) n = Inr (Some ts, dists) \<and>
           ts \<noteq> [] \<and>
           assign_topics dists arts = (arts', None) \<and>
           group_articles arts' (init_articles_by_topic ts) = Inr abt \<and>
           newspapers_of e arts' = Inr ns \<and>
           r = \<lparr>date = today e, algorithm = alg, num_articles = length arts',
                num_topics = length ts, topics = map (finish_topic arts' ns abt) ts\<rparr>"
  using assms unfolding process_articles_for_topics_def
  by (auto split: if_splits sum.splits option.splits prod.splits)

lemma run_backend_lda: "run_backend e ''lda'' texts n = unpack_sk (perform_lda_sklearn e texts n)"
  by (simp add: run_backend_def)

lemma run_backend_default:
  "alg \<noteq> ''nmf'' \<Longrightarrow> (alg = ''bertopic'' \<longrightarrow> \<not> BERTOPIC_AVAILABLE e) \<Longrightarrow>
   run_backend e alg texts n = unpack_sk (perform_lda_sklearn e texts n)"
  by (auto simp add: run_backend_def)

lemma map_of_init_fold:
  "map_of (fold (\<lambda>t abt. dict_set (topic_id t) [] abt) ts abt0) k =
     (if k \<in> topic_id ` set ts then Some [] else map_of abt0 k)"
  by (induction ts arbitrary: abt0) (auto simp: map_of_dict_set)

lemma map_of_init:
  "map_of (init_articles_by_topic ts) k = (if k \<in> topic_id ` set ts then Some [] else None)"
  by (simp add: init_articles_by_topic_def map_of_init_fold)

lemma group_articles_map_of:
  "group_articles as abt = Inr abt' \<Longrightarrow>
   map_of abt' k =
     map_option (\<lambda>l. l @ map article_summary
                        (filter (\<lambda>a. map_of a ''dominant_topic'' = Some (PInt k)) as))
       (map_of abt k)"
proof (induction as arbitrary: abt)
  case Nil
  then show ?case by (simp add: option.map_ident)
next
  case (Cons a as)
  show ?case
  proof (cases "map_of a ''dominant_topic''")
    case None
    then show ?thesis using Cons by simp
  next
    case (Some v)
    show ?thesis
    proof (cases v)
      case PNone
      then show ?thesis using Some Cons by simp
    next
      case (PStr s)
      then show ?thesis using Some Cons by simp
    next
      case (PFloats xs)
      then show ?thesis using Some Cons by simp
    next
      case (PInt k0)
      show ?thesis
      proof (cases "map_of abt k0")
        case None
        then show ?thesis using PInt Some Cons by (cases "k = k0") auto
      next
        case (Some l)
        then have g: "group_articles as (dict_set k0 (l @ [article_summary a]) abt) = Inr abt'"
          using PInt \<open>map_of a ''dominant_topic'' = Some v\<close> Cons.prems by simp
        from Cons.IH[OF g] show ?thesis
          using Some PInt \<open>map_of a ''dominant_topic'' = Some v\<close>
          by (cases "k = k0") (auto simp: map_of_dict_set)
      qed
    qed
  qed
qed

lemma topic_articles_grouped:
  assumes "group_articles arts (init_articles_by_topic ts) = Inr abt" and "t \<in> set ts"
  shows "topic_articles abt (topic_id t) =
           map article_summary
             (filter (\<lambda>a. map_of a ''dominant_topic'' = Some (PInt (topic_id t))) arts)"
  using group_articles_map_of[OF assms(1), of "topic_id t"] assms(2)
  by (simp add: topic_articles_def map_of_init)

lemma fold_dict_set_append:
  "distinct ns \<Longrightarrow> set ns \<inter> fst ` set d = {} \<Longrightarrow>
   fold (\<lambda>n acc. dict_set n (f n) acc) ns d = d @ map (\<lambda>n. (n, f n)) ns"
proof (induction ns arbitrary: d)
  case Nil
  then show ?case by simp
next
  case (Cons n ns)
  have new: "dict_set n (f n) d = d @ [(n, f n)]" if "n \<notin> fst ` set d" for d :: "('a \<times> 'b) list"
    using that by (induction d) auto
  have "dict_set n (f n) d = d @ [(n, f n)]" using Cons.prems new by auto
  moreover have "set ns \<inter> fst ` set (d @ [(n, f n)]) = {}" using Cons.prems by auto
  ultimately show ?case using Cons by simp
qed

lemma fst_fold_newspaper_step:
  "fst (fold (newspaper_step arts tarts) ns st) =
     fold (\<lambda>n acc. dict_set n (count_from tarts n) acc) ns (fst st)"
  by (induction ns arbitrary: st) (simp_all add: newspaper_step_def Let_def)

lemma snd_fold_newspaper_step:
  "snd (fold (newspaper_step arts tarts) ns st) =
     fold (\<lambda>n acc. dict_set n (weight_of (count_from tarts n) (count_from arts n)) acc) ns (snd st)"
  by (induction ns arbitrary: st) (simp_all add: newspaper_step_def Let_def)

lemma newspaper_stats_distinct:
  "distinct ns \<Longrightarrow>
   newspaper_stats arts ns tarts =
     (map (\<lambda>n. (n, count_from tarts n)) ns,
      map (\<lambda>n. (n, weight_of (count_from tarts n) (count_from arts n))) ns)"
  by (simp add: newspaper_stats_def prod_eq_iff fst_fold_newspaper_step snd_fold_newspaper_step
      fold_dict_set_append)

lemma distinct_list_of_set: "distinct (list_of_set e vs)"
  by (simp add: list_of_set_def)

lemma set_list_of_set: "set (list_of_set e vs) = set vs"
  by (simp add: list_of_set_def)

lemma newspapers_of_InrD:
  "newspapers_of e arts = Inr ns \<Longrightarrow>
   distinct ns \<and> set ns = (\<lambda>a. dict_get a ''newspaper'' (PStr [])) ` set arts"
  by (auto simp: newspapers_of_def Let_def distinct_list_of_set set_list_of_set split: if_splits)

lemma sum_count_partition:
  "distinct ns \<Longrightarrow>
   sum_list (map (\<lambda>n. length (filter (\<lambda>a. g a = n) xs)) ns) =
     length (filter (\<lambda>a. g a \<in> set ns) xs)"
proof (induction ns)
  case Nil
  then show ?case by simp
next
  case (Cons n ns)
  have "length (filter (\<lambda>a. g a = n) xs) + length (filter (\<lambda>a. g a \<in> set ns) xs) =
        length (filter (\<lambda>a. g a = n \<or> g a \<in> set ns) xs)"
    using Cons.prems by (induction xs) auto
  then show ?case using Cons by simp
qed

section \<open>The small run, evaluated\<close>

lemmas eval_defs = process_articles_for_topics_def preprocessed_texts_def has_text_def dict_get_def
  run_backend_def perform_lda_sklearn_def perform_nmf_def unpack_sk_def extract_topics_def
  assign_topics_def np_argmax_def init_articles_by_topic_def article_summary_def
  topic_articles_def newspapers_of_def list_of_set_def count_from_def weight_of_def
  newspaper_step_def newspaper_stats_def finish_topic_def generate_topic_label_def
  capitalize_def try_bertopic_def topic_representations_def
  demo_env_def demo_fit_def demo_row_def demo_articles_def enumerate_eq_zip Let_def

lemma demo_run:
  "process_articles_for_topics demo_env demo_articles ''lda'' 2 =
     (demo_after, Returned (Some demo_result))"
  by (simp add: eval_defs demo_after_def demo_result_def demo_topics_def)

lemma demo_bert_run:
  "process_articles_for_topics demo_bert_env demo_articles ''bertopic'' 2 =
     (demo_articles, Returned (Some demo_bert_result))"
  by (simp add: eval_defs demo_bert_env_def demo_bert_result_def)

lemma demo_run2:
  "process_articles_for_topics demo_env2 demo_articles ''lda'' 2 =
     (demo_after, Returned (Some demo_result2))"
  by (simp add: eval_defs demo_env2_def demo_after_def demo_result2_def demo_result_def
      demo_topics_def)

section \<open>What a returned result contains\<close>

lemma assign_topics_frame:
  "j < length arts \<Longrightarrow> k \<noteq> ''dominant_topic'' \<Longrightarrow> k \<noteq> ''topic_distribution'' \<Longrightarrow>
   map_of (fst (assign_topics dists arts) ! j) k = map_of (arts ! j) k"
  by (cases dists) (simp_all add: assign_topics_def assign_loop_frame)

lemma assign_topics_newspaper:
  "map (\<lambda>a. map_of a ''newspaper'') (fst (assign_topics dists arts)) =
   map (\<lambda>a. map_of a ''newspaper'') arts"
  by (rule nth_equalityI) (simp_all add: length_assign_topics assign_topics_frame)

lemma count_from_via_map:
  "count_from xs S =
     length (filter (\<lambda>v. (case v of None \<Rightarrow> PNone | Some x \<Rightarrow> x) = S)
               (map (\<lambda>a. map_of a ''newspaper'') xs))"
  by (simp add: count_from_def dict_get_def filter_map comp_def)

lemma count_from_assign_topics:
  "count_from (fst (assign_topics dists arts)) S = count_from arts S"
  by (simp add: count_from_via_map assign_topics_newspaper)

lemma sources_assign_topics:
  "map (\<lambda>a. dict_get a ''newspaper'' d) (fst (assign_topics dists arts)) =
   map (\<lambda>a. dict_get a ''newspaper'' d) arts"
proof -
  have "map (\<lambda>a. dict_get a ''newspaper'' d) xs =
        map (\<lambda>v. case v of None \<Rightarrow> d | Some x \<Rightarrow> x) (map (\<lambda>a. map_of a ''newspaper'') xs)"
    for xs by (simp add: dict_get_def)
  then show ?thesis by (simp only: assign_topics_newspaper)
qed

lemma extract_topics_ids: "t \<in> set (extract_topics comps) \<Longrightarrow> 0 \<le> topic_id t"
  by (auto simp: extract_topics_def)

lemma topic_representations_ids: "t \<in> set (topic_representations m) \<Longrightarrow> topic_id t \<noteq> - 1"
  by (auto simp: topic_representations_def)

lemma run_backend_ids:
  assumes "run_backend e alg texts n = Inr (Some ts, dists)" and "t \<in> set ts"
  shows "topic_id t \<noteq> - 1"
proof -
  have sk: "unpack_sk x = Inr (Some ts, dists) \<Longrightarrow>
            (x = perform_nmf e texts n \<or> x = perform_lda_sklearn e texts n) \<Longrightarrow> 0 \<le> topic_id t" for x
    using assms(2)
    by (auto simp: unpack_sk_def perform_nmf_def perform_lda_sklearn_def extract_topics_ids
        split: sum.splits sk_ret.splits if_splits)
  show ?thesis
  proof (cases "alg = ''nmf''")
    case True
    then show ?thesis using assms(1) sk[of "perform_nmf e texts n"] by (simp add: run_backend_def)
  next
    case False
    show ?thesis
    proof (cases "alg = ''bertopic'' \<and> BERTOPIC_AVAILABLE e")
      case True
      then show ?thesis using False assms
        by (auto simp: run_backend_def try_bertopic_def topic_representations_ids
            split: bert_ret.splits sum.splits if_splits)
    next
      case b: False
      then have "unpack_sk (perform_lda_sklearn e texts n) = Inr (Some ts, dists)"
        using False assms(1) by (auto simp: run_backend_def)
      then show ?thesis using sk[of "perform_lda_sklearn e texts n"] by simp
    qed
  qed
qed

lemma process_topicD:
  assumes run: "process_articles_for_topics e arts alg n = (arts', Returned (Some r))"
    and t: "t \<in> set (topics r)"
  shows "topic_id t \<noteq> - 1 \<and>
         articles t = map article_summary
           (filter (\<lambda>a. map_of a ''dominant_topic'' = Some (PInt (topic_id t))) arts') \<and>
         newspaper_counts t =
           map (\<lambda>S. (S, count_from (articles t) S))
             (list_of_set e (map (\<lambda>a. dict_get a ''newspaper'' (PStr [])) arts)) \<and>
         newspaper_weights t =
           map (\<lambda>S. (S, weight_of (count_from (articles t) S) (count_from arts S)))
             (list_of_set e (map (\<lambda>a. dict_get a ''newspaper'' (PStr [])) arts))"
proof -
  from process_SomeD[OF run] obtain ts dists abt ns where h:
    "run_backend e alg (preprocessed_texts arts) n = Inr (Some ts, dists)"
    "assign_topics dists arts = (arts', None)"
    "group_articles arts' (init_articles_by_topic ts) = Inr abt"
    "newspapers_of e arts' = Inr ns"
    "r = \<lparr>date = today e, algorithm = alg, num_articles = length arts',
         num_topics = length ts, topics = map (finish_topic arts' ns abt) ts\<rparr>"
    by blast
  have arts': "arts' = fst (assign_topics dists arts)" using h(2) by simp
  from t h(5) obtain raw where raw: "raw \<in> set ts" "t = finish_topic arts' ns abt raw" by auto
  have ns: "ns = list_of_set e (map (\<lambda>a. dict_get a ''newspaper'' (PStr [])) arts)"
    using h(4) by (auto simp: newspapers_of_def Let_def arts' sources_assign_topics split: if_splits)
  have d: "distinct ns" using ns by (simp add: distinct_list_of_set)
  have cnt: "count_from arts' S = count_from arts S" for S
    by (simp add: arts' count_from_assign_topics)
  have id: "topic_id t = topic_id raw" using raw(2) by (simp add: finish_topic_def Let_def)
  have a: "articles t = map article_summary
           (filter (\<lambda>a. map_of a ''dominant_topic'' = Some (PInt (topic_id t))) arts')"
    using raw topic_articles_grouped[OF h(3) raw(1)] by (simp add: finish_topic_def Let_def)
  have st: "newspaper_counts t = fst (newspaper_stats arts' ns (articles t))"
           "newspaper_weights t = snd (newspaper_stats arts' ns (articles t))"
    using raw(2) by (simp_all add: finish_topic_def Let_def)
  have st': "newspaper_counts t = map (\<lambda>S. (S, count_from (articles t) S)) ns"
    "newspaper_weights t = map (\<lambda>S. (S, weight_of (count_from (articles t) S) (count_from arts S))) ns"
    using st by (simp_all add: newspaper_stats_distinct[OF d] cnt)
  show ?thesis
    using run_backend_ids[OF h(1) raw(1)] id a st' unfolding ns by simp
qed

lemma process_articles_state:
  "process_articles_for_topics e arts alg n = (arts', out) \<Longrightarrow>
   \<exists>dists. arts' = fst (assign_topics dists arts) \<and>
     (alg = ''bertopic'' \<and> BERTOPIC_AVAILABLE e \<longrightarrow> dists = None)"
proof -
  assume a: "process_articles_for_topics e arts alg n = (arts', out)"
  have none: "assign_topics None arts = (arts, None)" by (simp add: assign_topics_def)
  have b: "run_backend e alg texts n = Inr (ts, dists) \<Longrightarrow>
           alg = ''bertopic'' \<and> BERTOPIC_AVAILABLE e \<longrightarrow> dists = None" for texts ts dists
    by (auto simp: run_backend_def split: bert_ret.splits)
  show ?thesis
  proof (cases "arts' = arts")
    case True
    then show ?thesis using none by (intro exI[of _ None]) simp
  next
    case False
    then obtain ts dists where
      "run_backend e alg (preprocessed_texts arts) n = Inr (ts, dists)"
      "arts' = fst (assign_topics dists arts)"
      using a unfolding process_articles_for_topics_def
      by (auto split: if_splits sum.splits option.splits prod.splits)
    then show ?thesis using b by blast
  qed
qed

lemma map_of_map_keys:
  "map_of (map (\<lambda>k. (k, f k)) ks) k = (if k \<in> set ks then Some (f k) else None)"
  by (induction ks) auto

lemma count_from_summaries:
  "count_from (map article_summary xs) S =
     length (filter (\<lambda>a. dict_get a ''newspaper'' (PStr []) = S) xs)"
  by (simp add: count_from_def article_summary_def dict_get_def filter_map comp_def)

lemma process_sources:
  assumes "process_articles_for_topics e arts alg n = (arts', out)"
  shows "map (\<lambda>a. map_of a ''newspaper'') arts' = map (\<lambda>a. map_of a ''newspaper'') arts"
  using process_articles_state[OF assms] assign_topics_newspaper by auto

lemma length_filter_filter_le: "length (filter P (filter Q xs)) \<le> length (filter P xs)"
  by (induction xs) auto

lemma process_count_from:
  assumes "process_articles_for_topics e arts alg n = (arts', out)"
  shows "count_from arts' S = count_from arts S"
proof -
  from process_articles_state[OF assms] obtain dists where "arts' = fst (assign_topics dists arts)"
    by blast
  then show ?thesis by (simp add: count_from_assign_topics)
qed

section \<open>The document count of the result\<close>

text \<open>
  Claim C9. Whenever the function returns a result, its \<^verbatim>\<open>num_articles\<close> is the
  length of the article list it was given, the articles with an empty text included.
  A result is returned only when some article has a text that is not empty.
\<close>

theorem num_articles_counts_all:
  "process_articles_for_topics e arts alg n = (arts', Returned (Some r)) \<Longrightarrow>
   num_articles r = length arts"
proof -
  assume a: "process_articles_for_topics e arts alg n = (arts', Returned (Some r))"
  from process_SomeD[OF a] obtain ts dists abt ns where
    "assign_topics dists arts = (arts', None)" and
    "r = \<lparr>date = today e, algorithm = alg, num_articles = length arts',
         num_topics = length ts, topics = map (finish_topic arts' ns abt) ts\<rparr>"
    by blast
  then show ?thesis using length_assign_topics[of dists arts] by simp
qed

theorem num_articles_counts_all_witness:
  "process_articles_for_topics demo_env demo_articles ''lda'' 2 =
     (demo_after, Returned (Some demo_result)) \<and>
   length (preprocessed_texts demo_articles) = 3 \<and>
   num_articles demo_result = 4 \<and> length demo_articles = 4"
proof -
  have a: "length (preprocessed_texts demo_articles) = 3 \<and> length demo_articles = 4"
    by (simp add: demo_articles_def preprocessed_texts_def has_text_def dict_get_def)
  show ?thesis using num_articles_counts_all[OF demo_run] demo_run a by simp
qed

section \<open>The default backend\<close>

text \<open>
  Claim C10. For an algorithm string that is not \<^verbatim>\<open>nmf\<close>, and is not \<^verbatim>\<open>bertopic\<close>
  with the BERTopic library available (so: any other string, and \<^verbatim>\<open>bertopic\<close> when the
  library is missing), the backend that runs is \<^verbatim>\<open>perform_lda_sklearn\<close>, and the call
  does exactly what a call with \<^verbatim>\<open>lda\<close> does, except that the \<^verbatim>\<open>algorithm\<close> field of
  the result holds the string the caller gave.
\<close>

theorem fallback_to_lda:
  assumes "alg \<noteq> ''nmf''" and "alg = ''bertopic'' \<longrightarrow> \<not> BERTOPIC_AVAILABLE e"
  shows "run_backend e alg texts n = unpack_sk (perform_lda_sklearn e texts n) \<and>
         process_articles_for_topics e arts alg n =
           with_algorithm alg (process_articles_for_topics e arts ''lda'' n)"
proof
  show "run_backend e alg texts n = unpack_sk (perform_lda_sklearn e texts n)"
    using assms by (rule run_backend_default)
  have eq: "run_backend e alg (preprocessed_texts arts) n =
            run_backend e ''lda'' (preprocessed_texts arts) n"
    using assms by (simp add: run_backend_default run_backend_lda)
  show "process_articles_for_topics e arts alg n =
           with_algorithm alg (process_articles_for_topics e arts ''lda'' n)"
    unfolding process_articles_for_topics_def eq with_algorithm_def
    by (simp split: sum.splits option.splits prod.splits)
qed

theorem fallback_to_lda_witness:
  "''gensim'' \<noteq> ''nmf'' \<and> ''gensim'' \<noteq> ''bertopic'' \<and>
   run_backend demo_env ''gensim'' [PStr ''governo''] 2 =
     unpack_sk (perform_lda_sklearn demo_env [PStr ''governo''] 2) \<and>
   process_articles_for_topics demo_env demo_articles ''gensim'' 2 =
     (demo_after, Returned (Some (demo_result\<lparr>algorithm := ''gensim''\<rparr>))) \<and>
   ''bertopic'' \<noteq> ''nmf'' \<and> \<not> BERTOPIC_AVAILABLE demo_env \<and>
   process_articles_for_topics demo_env demo_articles ''bertopic'' 2 =
     (demo_after, Returned (Some (demo_result\<lparr>algorithm := ''bertopic''\<rparr>)))"
proof -
  have nb: "\<not> BERTOPIC_AVAILABLE demo_env" by (simp add: demo_env_def)
  show ?thesis
    using fallback_to_lda[of "''gensim''" demo_env "[PStr ''governo'']" 2 demo_articles]
      fallback_to_lda[of "''bertopic''" demo_env "[PStr ''governo'']" 2 demo_articles]
      demo_run nb
    by (simp add: with_algorithm_def)
qed

section \<open>The topic by source matrix\<close>

text \<open>
  Claim C5. In a returned result, for every topic and every source observed in the
  article list (the value of \<^verbatim>\<open>article.get('newspaper', '')\<close> of some article, whether
  or not the article is in the topic), \<^verbatim>\<open>newspaper_counts\<close> and \<^verbatim>\<open>newspaper_weights\<close>
  have an entry; the entry is count 0 and weight 0 when no article of the topic comes
  from the source; and the counts of a topic add up to the number of its articles.
\<close>

theorem source_matrix_complete:
  assumes run: "process_articles_for_topics e arts alg n = (arts', Returned (Some r))"
    and t: "t \<in> set (topics r)"
    and S: "S \<in> (\<lambda>a. dict_get a ''newspaper'' (PStr [])) ` set arts"
  shows "map_of (newspaper_counts t) S = Some (count_from (articles t) S) \<and>
         map_of (newspaper_weights t) S =
           Some (weight_of (count_from (articles t) S) (count_from arts S)) \<and>
         (count_from (articles t) S = 0 \<longrightarrow>
            map_of (newspaper_counts t) S = Some 0 \<and> map_of (newspaper_weights t) S = Some 0) \<and>
         sum_list (map snd (newspaper_counts t)) = length (articles t)"
proof -
  let ?src = "\<lambda>a. dict_get a ''newspaper'' (PStr [])"
  let ?ns = "list_of_set e (map ?src arts)"
  let ?sel = "filter (\<lambda>a. map_of a ''dominant_topic'' = Some (PInt (topic_id t))) arts'"
  note d = process_topicD[OF run t]
  have Sns: "S \<in> set ?ns" using S by (simp add: set_list_of_set)
  have c: "map_of (newspaper_counts t) S = Some (count_from (articles t) S)"
    using d Sns by (simp add: map_of_map_keys)
  have w: "map_of (newspaper_weights t) S =
           Some (weight_of (count_from (articles t) S) (count_from arts S))"
    using d Sns by (simp add: map_of_map_keys)
  have "map ?src arts' = map (\<lambda>v. case v of None \<Rightarrow> PStr [] | Some x \<Rightarrow> x)
                            (map (\<lambda>a. map_of a ''newspaper'') arts')"
    by (simp add: dict_get_def)
  also have "\<dots> = map (\<lambda>v. case v of None \<Rightarrow> PStr [] | Some x \<Rightarrow> x)
                            (map (\<lambda>a. map_of a ''newspaper'') arts)"
    by (simp only: process_sources[OF run])
  also have "\<dots> = map ?src arts" by (simp add: dict_get_def)
  finally have src: "map ?src arts' = map ?src arts" .
  have mem: "?src a \<in> set ?ns" if "a \<in> set arts'" for a
  proof -
    have "?src a \<in> set (map ?src arts')" using that by simp
    then show ?thesis by (simp only: src set_list_of_set)
  qed
  have "sum_list (map snd (newspaper_counts t)) =
        sum_list (map (\<lambda>S. length (filter (\<lambda>a. ?src a = S) ?sel)) ?ns)"
    using d by (simp add: count_from_summaries comp_def)
  also have "\<dots> = length (filter (\<lambda>a. ?src a \<in> set ?ns) ?sel)"
    by (rule sum_count_partition) (rule distinct_list_of_set)
  also have "\<dots> = length ?sel"
  proof -
    have "filter (\<lambda>a. ?src a \<in> set ?ns) ?sel = ?sel"
      by (rule filter_True) (use mem in auto)
    then show ?thesis by (simp only:)
  qed
  also have "\<dots> = length (articles t)" using d by simp
  finally have s: "sum_list (map snd (newspaper_counts t)) = length (articles t)" .
  show ?thesis using c w s by (simp add: weight_of_def)
qed

theorem source_matrix_complete_witness:
  "process_articles_for_topics demo_env demo_articles ''lda'' 2 =
     (demo_after, Returned (Some demo_result)) \<and>
   topics demo_result ! 1 \<in> set (topics demo_result) \<and>
   PStr ''Alpha'' \<in> (\<lambda>a. dict_get a ''newspaper'' (PStr [])) ` set demo_articles \<and>
   count_from (articles (topics demo_result ! 1)) (PStr ''Alpha'') = 0 \<and>
   map_of (newspaper_counts (topics demo_result ! 1)) (PStr ''Alpha'') = Some 0 \<and>
   map_of (newspaper_weights (topics demo_result ! 1)) (PStr ''Alpha'') = Some 0 \<and>
   sum_list (map snd (newspaper_counts (topics demo_result ! 1))) =
     length (articles (topics demo_result ! 1))"
proof -
  have t: "topics demo_result ! 1 \<in> set (topics demo_result)"
    by (simp add: demo_result_def demo_topics_def)
  have S: "PStr ''Alpha'' \<in> (\<lambda>a. dict_get a ''newspaper'' (PStr [])) ` set demo_articles"
    by (simp add: demo_articles_def dict_get_def)
  have z: "count_from (articles (topics demo_result ! 1)) (PStr ''Alpha'') = 0"
    by (simp add: demo_result_def demo_topics_def count_from_def dict_get_def)
  show ?thesis
    using source_matrix_complete[OF demo_run t S] demo_run t S z by (simp add: weight_of_def)
qed

text \<open>
  In a returned result, every stored weight is the stored count divided by the number
  of articles that line 246 counts for the source, or 0 when that number is 0 (no
  division takes place then), and it is never negative. When every article carries a
  \<^verbatim>\<open>newspaper\<close> field, that number is positive and the weight is at most 1. Division
  is exact here; Python divides in floating point.
\<close>

lemma proportion_bounds:
  assumes run: "process_articles_for_topics e arts alg n = (arts', Returned (Some r))"
    and t: "t \<in> set (topics r)"
    and w: "(S, w) \<in> set (newspaper_weights t)"
  shows "w = (if count_from arts S = 0 then 0
              else of_nat (count_from (articles t) S) / of_nat (count_from arts S)) \<and>
         map_of (newspaper_counts t) S = Some (count_from (articles t) S) \<and>
         0 \<le> w \<and>
         (count_from arts S = 0 \<longrightarrow> w = 0) \<and>
         (list_all (\<lambda>a. map_of a ''newspaper'' \<noteq> None) arts \<longrightarrow> 0 < count_from arts S \<and> w \<le> 1)"
proof -
  let ?src = "\<lambda>a. dict_get a ''newspaper'' (PStr [])"
  let ?ns = "list_of_set e (map ?src arts)"
  let ?sel = "filter (\<lambda>a. map_of a ''dominant_topic'' = Some (PInt (topic_id t))) arts'"
  note d = process_topicD[OF run t]
  from w d have Sns: "S \<in> set ?ns"
    and weq: "w = weight_of (count_from (articles t) S) (count_from arts S)"
    by auto
  have c: "map_of (newspaper_counts t) S = Some (count_from (articles t) S)"
    using d Sns by (simp add: map_of_map_keys)
  have w1: "w = (if count_from arts S = 0 then 0
              else of_nat (count_from (articles t) S) / of_nat (count_from arts S))"
    using weq by (simp add: weight_of_def)
  have nonneg: "0 \<le> w" using w1 by simp
  have bound: "0 < count_from arts S \<and> w \<le> 1"
    if keys: "list_all (\<lambda>a. map_of a ''newspaper'' \<noteq> None) arts"
  proof -
    have same: "dict_get a ''newspaper'' (PStr []) = dict_get a ''newspaper'' PNone"
      if "map_of a ''newspaper'' \<noteq> None" for a
      using that by (auto simp: dict_get_def)
    have keys': "map_of a ''newspaper'' \<noteq> None" if "a \<in> set arts'" for a
    proof -
      have "map_of a ''newspaper'' \<in> set (map (\<lambda>a. map_of a ''newspaper'') arts')"
        using that by simp
      then have "map_of a ''newspaper'' \<in> set (map (\<lambda>a. map_of a ''newspaper'') arts)"
        by (simp only: process_sources[OF run])
      then obtain b where b: "b \<in> set arts" "map_of b ''newspaper'' = map_of a ''newspaper''"
        by auto
      from keys have "\<forall>x\<in>set arts. map_of x ''newspaper'' \<noteq> None"
        unfolding list_all_iff .
      with b(1) have "map_of b ''newspaper'' \<noteq> None" by blast
      with b(2) show ?thesis by simp
    qed
    from Sns obtain a where a: "a \<in> set arts" "?src a = S" by (auto simp: set_list_of_set)
    then have "dict_get a ''newspaper'' PNone = S" using keys same by (auto simp: list_all_iff)
    then have "a \<in> set (filter (\<lambda>a. dict_get a ''newspaper'' PNone = S) arts)" using a by simp
    then have pos: "0 < count_from arts S"
      unfolding count_from_def by (simp only: length_pos_if_in_set)
    have "count_from (articles t) S = length (filter (\<lambda>a. ?src a = S) ?sel)"
      using d by (simp add: count_from_summaries)
    also have "\<dots> = length (filter (\<lambda>a. dict_get a ''newspaper'' PNone = S) ?sel)"
      by (rule arg_cong[where f = length], rule filter_cong) (auto simp: same keys')
    also have "\<dots> \<le> length (filter (\<lambda>a. dict_get a ''newspaper'' PNone = S) arts')"
      by (rule length_filter_filter_le)
    also have "\<dots> = count_from arts' S" by (simp only: count_from_def)
    also have "\<dots> = count_from arts S" by (rule process_count_from[OF run])
    finally have "count_from (articles t) S \<le> count_from arts S" .
    then have "w \<le> 1" using pos w1 by simp
    then show ?thesis using pos by simp
  qed
  show ?thesis using w1 c nonneg bound by simp
qed

text \<open>
  Claim C6. The weight of a source in a topic is its count divided by the number of
  articles of the source, and lies between 0 and 1. Line 242 counts the articles of the
  topic on summaries built with \<^verbatim>\<open>article.get('newspaper', '')\<close>, line 246 counts all
  the articles with \<^verbatim>\<open>article.get('newspaper')\<close>: an article without the field is
  counted for the source \<^verbatim>\<open>''\<close> by the first and not by the second. In the run below
  the source \<^verbatim>\<open>''\<close> has two articles in the topic and a total of one, and its weight
  is 2.
\<close>

theorem weight_above_one:
  "list_all has_text demo_unsourced \<and>
   map (\<lambda>a. dict_get a ''newspaper'' (PStr [])) demo_unsourced =
     [PStr [], PStr [], PStr ''Alpha''] \<and>
   map (\<lambda>a. dict_get a ''newspaper'' PNone) demo_unsourced =
     [PStr [], PNone, PStr ''Alpha''] \<and>
   (case snd (process_articles_for_topics (demo_env\<lparr>lda_fit := demo_fit1\<rparr>)
                demo_unsourced ''lda'' 1) of
      Returned (Some r) \<Rightarrow>
        map (\<lambda>t. (topic_id t, length (articles t), newspaper_counts t, newspaper_weights t))
          (topics r)
    | _ \<Rightarrow> []) =
     [(0, 3, [(PStr [], 2), (PStr ''Alpha'', 1)], [(PStr [], 2), (PStr ''Alpha'', 1)])]"
  by (simp add: eval_defs demo_fit1_def demo_unsourced_def)

section \<open>The outlier topic\<close>

text \<open>
  Claim C8. No topic of a returned result has the id -1, whichever backend ran, and
  the articles listed under a topic are exactly those whose \<^verbatim>\<open>dominant_topic\<close> is the
  id of that topic: an article marked -1 is listed nowhere. On the BERTopic path the
  labels BERTopic gives to the documents are dropped and the articles are left as they
  were, so that, for articles that came without a \<^verbatim>\<open>dominant_topic\<close> field, every
  topic has an empty article list.
\<close>

theorem outlier_excluded:
  assumes run: "process_articles_for_topics e arts alg n = (arts', Returned (Some r))"
    and t: "t \<in> set (topics r)"
  shows "topic_id t \<noteq> - 1 \<and>
         articles t = map article_summary
           (filter (\<lambda>a. map_of a ''dominant_topic'' = Some (PInt (topic_id t))) arts') \<and>
         (alg = ''bertopic'' \<and> BERTOPIC_AVAILABLE e \<longrightarrow>
            arts' = arts \<and>
            (list_all (\<lambda>a. map_of a ''dominant_topic'' = None) arts \<longrightarrow> articles t = []))"
proof -
  note d = process_topicD[OF run t]
  have b: "arts' = arts \<and> (list_all (\<lambda>a. map_of a ''dominant_topic'' = None) arts \<longrightarrow> articles t = [])"
    if "alg = ''bertopic'' \<and> BERTOPIC_AVAILABLE e"
  proof -
    from process_articles_state[OF run] that have same: "arts' = arts"
      by (auto simp: assign_topics_def)
    have "articles t = []" if "list_all (\<lambda>a. map_of a ''dominant_topic'' = None) arts"
    proof -
      have "filter (\<lambda>a. map_of a ''dominant_topic'' = Some (PInt (topic_id t))) arts = []"
        using that by (auto simp: filter_empty_conv list_all_iff)
      then show ?thesis using d same by simp
    qed
    then show ?thesis using same by simp
  qed
  have d1: "topic_id t \<noteq> - 1" using d by simp
  have d2: "articles t = map article_summary
           (filter (\<lambda>a. map_of a ''dominant_topic'' = Some (PInt (topic_id t))) arts')"
    using d by simp
  show ?thesis using d1 d2 b by blast
qed

theorem outlier_excluded_witness:
  "process_articles_for_topics demo_bert_env demo_articles ''bertopic'' 2 =
     (demo_articles, Returned (Some demo_bert_result)) \<and>
   hd (topics demo_bert_result) \<in> set (topics demo_bert_result) \<and>
   BERTOPIC_AVAILABLE demo_bert_env \<and>
   list_all (\<lambda>a. map_of a ''dominant_topic'' = None) demo_articles \<and>
   topic_id (hd (topics demo_bert_result)) \<noteq> - 1 \<and>
   articles (hd (topics demo_bert_result)) = []"
proof -
  have t: "hd (topics demo_bert_result) \<in> set (topics demo_bert_result)"
    by (simp add: demo_bert_result_def)
  have a: "BERTOPIC_AVAILABLE demo_bert_env" by (simp add: demo_bert_env_def)
  have f: "list_all (\<lambda>a. map_of a ''dominant_topic'' = None) demo_articles"
    by (simp add: demo_articles_def)
  from outlier_excluded[OF demo_bert_run t] a f
  have c: "topic_id (hd (topics demo_bert_result)) \<noteq> - 1 \<and>
           articles (hd (topics demo_bert_result)) = []"
    by blast
  show ?thesis using demo_bert_run t a f c by blast
qed

section \<open>What the call does to the articles\<close>

lemma assign_loop_written:
  "snd (assign_loop ds i as) = None \<Longrightarrow> a \<in> set (fst (assign_loop ds i as)) \<Longrightarrow>
   map_of a ''dominant_topic'' \<noteq> None \<and> map_of a ''topic_distribution'' \<noteq> None"
proof (induction as arbitrary: i)
  case Nil
  then show ?case by simp
next
  case (Cons x xs)
  then show ?case
    by (auto simp: Let_def map_of_dict_set split: option.splits if_splits)
qed

lemma run_backend_dists:
  "run_backend e alg texts n = Inr (ts, dists) \<Longrightarrow>
   (dists = None) = (alg \<noteq> ''nmf'' \<and> alg = ''bertopic'' \<and> BERTOPIC_AVAILABLE e)"
  by (auto simp: run_backend_def unpack_sk_def split: if_splits sum.splits sk_ret.splits bert_ret.splits)

text \<open>
  Claim C2, counterexample. The articles are not left as they were: after the small run the first article
  carries a \<^verbatim>\<open>dominant_topic\<close> it did not have.
\<close>

theorem articles_written_in_place:
  "fst (process_articles_for_topics demo_env demo_articles ''lda'' 2) \<noteq> demo_articles \<and>
   map_of (demo_articles ! 0) ''dominant_topic'' = None \<and>
   map_of (fst (process_articles_for_topics demo_env demo_articles ''lda'' 2) ! 0) ''dominant_topic'' =
     Some (PInt 0)"
  by (simp add: demo_run) (simp add: demo_after_def demo_articles_def)

text \<open>
  Claim C2, amended. The function writes into the article dictionaries it is given,
  and only the two fields \<^verbatim>\<open>dominant_topic\<close> and \<^verbatim>\<open>topic_distribution\<close>: however the
  call ends, the list keeps its length and every other field of every article keeps
  its value. On the BERTopic path no article is changed. When a result is returned on
  another path, every article has both fields.
\<close>

theorem only_topic_fields_written:
  assumes run: "process_articles_for_topics e arts alg n = (arts', out)"
  shows "length arts' = length arts \<and>
         (i < length arts \<and> k \<noteq> ''dominant_topic'' \<and> k \<noteq> ''topic_distribution'' \<longrightarrow>
            map_of (arts' ! i) k = map_of (arts ! i) k) \<and>
         (alg = ''bertopic'' \<and> BERTOPIC_AVAILABLE e \<longrightarrow> arts' = arts) \<and>
         (out = Returned (Some r) \<and> \<not> (alg = ''bertopic'' \<and> BERTOPIC_AVAILABLE e) \<longrightarrow>
            list_all (\<lambda>a. map_of a ''dominant_topic'' \<noteq> None \<and>
                           map_of a ''topic_distribution'' \<noteq> None) arts')"
proof -
  from process_articles_state[OF run] obtain dists where
    st: "arts' = fst (assign_topics dists arts)"
    and bt: "alg = ''bertopic'' \<and> BERTOPIC_AVAILABLE e \<longrightarrow> dists = None"
    by blast
  have l: "length arts' = length arts" using st by (simp add: length_assign_topics)
  have f: "i < length arts \<and> k \<noteq> ''dominant_topic'' \<and> k \<noteq> ''topic_distribution'' \<longrightarrow>
            map_of (arts' ! i) k = map_of (arts ! i) k"
    using st by (simp add: assign_topics_frame)
  have b: "alg = ''bertopic'' \<and> BERTOPIC_AVAILABLE e \<longrightarrow> arts' = arts"
    using st bt by (auto simp: assign_topics_def)
  have w: "list_all (\<lambda>a. map_of a ''dominant_topic'' \<noteq> None \<and>
                           map_of a ''topic_distribution'' \<noteq> None) arts'"
    if o: "out = Returned (Some r)" and nb: "\<not> (alg = ''bertopic'' \<and> BERTOPIC_AVAILABLE e)"
  proof -
    from process_SomeD[OF run[unfolded o]] obtain ts ds where
      rb: "run_backend e alg (preprocessed_texts arts) n = Inr (Some ts, ds)"
      and as: "assign_topics ds arts = (arts', None)"
      by blast
    from run_backend_dists[OF rb] nb obtain d where d: "ds = Some d" by auto
    have "snd (assign_loop d 0 arts) = None" "arts' = fst (assign_loop d 0 arts)"
      using as d by (simp_all add: assign_topics_def)
    then show ?thesis
      using assign_loop_written[of d 0 arts] by (simp add: list_all_iff)
  qed
  show ?thesis using l f b w by blast
qed

theorem only_topic_fields_written_witness:
  "process_articles_for_topics demo_env demo_articles ''lda'' 2 =
     (demo_after, Returned (Some demo_result)) \<and>
   length demo_after = length demo_articles \<and>
   (1::nat) < length demo_articles \<and>
   map_of (demo_after ! 1) ''newspaper'' = map_of (demo_articles ! 1) ''newspaper'' \<and>
   \<not> BERTOPIC_AVAILABLE demo_env \<and>
   list_all (\<lambda>a. map_of a ''dominant_topic'' \<noteq> None \<and>
                  map_of a ''topic_distribution'' \<noteq> None) demo_after"
proof -
  have i: "(1::nat) < length demo_articles" by (simp add: demo_articles_def)
  have nb: "\<not> BERTOPIC_AVAILABLE demo_env" by (simp add: demo_env_def)
  have k: "''newspaper'' \<noteq> ''dominant_topic'' \<and> ''newspaper'' \<noteq> ''topic_distribution''" by simp
  from only_topic_fields_written[OF demo_run, of 1 "''newspaper''" demo_result] i nb k
  have "length demo_after = length demo_articles \<and>
        map_of (demo_after ! 1) ''newspaper'' = map_of (demo_articles ! 1) ''newspaper'' \<and>
        list_all (\<lambda>a. map_of a ''dominant_topic'' \<noteq> None \<and>
                  map_of a ''topic_distribution'' \<noteq> None) demo_after"
    by blast
  then show ?thesis using demo_run i nb by blast
qed

section \<open>The assignment step\<close>

text \<open>
  With a distribution array that has no empty row, the loop ends without an exception
  and marks every article: with a topic index when the array has a row at the index of
  the article, with -1 when the index of the article is beyond the array. The same
  holds of any run of the loop that ends without an exception.
\<close>

lemma assign_step_total:
  assumes rows: "list_all (\<lambda>row. row \<noteq> []) ds" and i: "i < length arts"
  shows "snd (assign_topics (Some ds) arts) = None \<and>
         (i < length ds \<longrightarrow>
            assigned (fst (assign_topics (Some ds) arts) ! i) \<and>
            \<not> unassigned (fst (assign_topics (Some ds) arts) ! i)) \<and>
         (length ds \<le> i \<longrightarrow>
            unassigned (fst (assign_topics (Some ds) arts) ! i) \<and>
            \<not> assigned (fst (assign_topics (Some ds) arts) ! i))"
proof -
  have ok: "snd (assign_loop ds 0 arts) = None"
    using rows by (intro assign_loop_ok) (simp add: list_all_iff)
  note nth = assign_loop_nth[OF ok i]
  have "ds ! i \<noteq> []" if "i < length ds"
    using that rows by (simp add: list_all_iff)
  then have "\<exists>k. np_argmax (ds ! i) = Some k" if "i < length ds"
    using that np_argmax_Some by blast
  then show ?thesis
    using ok nth by (auto simp: assign_topics_def assigned_def unassigned_def)
qed

lemma assign_loop_marked:
  assumes ok: "snd (assign_loop ds 0 arts) = None" and i: "i < length arts"
  shows "(i < length ds \<longrightarrow>
            assigned (fst (assign_loop ds 0 arts) ! i) \<and>
            \<not> unassigned (fst (assign_loop ds 0 arts) ! i)) \<and>
         (length ds \<le> i \<longrightarrow>
            unassigned (fst (assign_loop ds 0 arts) ! i) \<and>
            \<not> assigned (fst (assign_loop ds 0 arts) ! i))"
proof -
  note nth = assign_loop_nth[OF ok i]
  have "fst (assign_loop ds 0 arts) ! i \<in> set (fst (assign_loop ds 0 arts))"
    using i by (simp add: length_assign_loop)
  from assign_loop_written[OF ok this]
  have "map_of (fst (assign_loop ds 0 arts) ! i) ''dominant_topic'' \<noteq> None" by simp
  then show ?thesis
    using nth by (auto simp: assigned_def unassigned_def)
qed

text \<open>
  Claim C3, counterexample. On the BERTopic path the name \<^verbatim>\<open>doc_topic_dists\<close> is never
  bound and the loop of lines 199-207 is skipped: after the call the second article of
  the small run, which has a text, is marked neither with a topic nor with -1.
\<close>

theorem bertopic_leaves_documents_unmarked:
  "process_articles_for_topics demo_bert_env demo_articles ''bertopic'' 2 =
     (demo_articles, Returned (Some demo_bert_result)) \<and>
   has_text (demo_articles ! 1) \<and>
   \<not> assigned (fst (process_articles_for_topics demo_bert_env demo_articles ''bertopic'' 2) ! 1) \<and>
   \<not> unassigned (fst (process_articles_for_topics demo_bert_env demo_articles ''bertopic'' 2) ! 1)"
  by (simp add: demo_bert_run)
     (simp add: demo_articles_def has_text_def dict_get_def assigned_def unassigned_def)

text \<open>
  Claim C3, amended. The assignment loop runs when the backend returns a distribution
  array, that is on the LDA and NMF paths. There it raises no exception when no row
  is empty, and in every call that returns a result each article ends in exactly one of
  two states: marked with a topic index when the array has a row at the index of the
  article, marked -1 when the index of the article is beyond the array. On the
  BERTopic path the loop does not run and the articles are left as they came: an
  article that came without a \<^verbatim>\<open>dominant_topic\<close> field is in neither state.
\<close>

theorem assignment_by_path:
  assumes i: "i < length arts"
  shows "(list_all (\<lambda>row. row \<noteq> []) ds \<longrightarrow>
            snd (assign_topics (Some ds) arts) = None \<and>
            (i < length ds \<longrightarrow>
               assigned (fst (assign_topics (Some ds) arts) ! i) \<and>
               \<not> unassigned (fst (assign_topics (Some ds) arts) ! i)) \<and>
            (length ds \<le> i \<longrightarrow>
               unassigned (fst (assign_topics (Some ds) arts) ! i) \<and>
               \<not> assigned (fst (assign_topics (Some ds) arts) ! i))) \<and>
         (process_articles_for_topics e arts alg n = (arts', Returned (Some r)) \<and>
          \<not> (alg = ''bertopic'' \<and> BERTOPIC_AVAILABLE e) \<longrightarrow>
            (\<exists>ts rows.
               run_backend e alg (preprocessed_texts arts) n = Inr (Some ts, Some rows) \<and>
               arts' = fst (assign_topics (Some rows) arts) \<and>
               (i < length rows \<longrightarrow> assigned (arts' ! i) \<and> \<not> unassigned (arts' ! i)) \<and>
               (length rows \<le> i \<longrightarrow> unassigned (arts' ! i) \<and> \<not> assigned (arts' ! i)))) \<and>
         (process_articles_for_topics e arts alg n = (arts', out) \<and>
          alg = ''bertopic'' \<and> BERTOPIC_AVAILABLE e \<longrightarrow>
            arts' = arts \<and>
            (map_of (arts ! i) ''dominant_topic'' = None \<longrightarrow>
               \<not> assigned (arts' ! i) \<and> \<not> unassigned (arts' ! i)))"
proof (intro conjI impI)
  assume "list_all (\<lambda>row. row \<noteq> []) ds"
  from assign_step_total[OF this i]
  show "snd (assign_topics (Some ds) arts) = None"
    and "i < length ds \<Longrightarrow> assigned (fst (assign_topics (Some ds) arts) ! i)"
    and "i < length ds \<Longrightarrow> \<not> unassigned (fst (assign_topics (Some ds) arts) ! i)"
    and "length ds \<le> i \<Longrightarrow> unassigned (fst (assign_topics (Some ds) arts) ! i)"
    and "length ds \<le> i \<Longrightarrow> \<not> assigned (fst (assign_topics (Some ds) arts) ! i)"
    by blast+
next
  assume a: "process_articles_for_topics e arts alg n = (arts', Returned (Some r)) \<and>
          \<not> (alg = ''bertopic'' \<and> BERTOPIC_AVAILABLE e)"
  from process_SomeD[of e arts alg n arts' r] a obtain ts dists where
    rb: "run_backend e alg (preprocessed_texts arts) n = Inr (Some ts, dists)"
    and as: "assign_topics dists arts = (arts', None)"
    by blast
  from run_backend_dists[OF rb] a obtain rows where d: "dists = Some rows" by auto
  have ok: "snd (assign_loop rows 0 arts) = None" and st: "arts' = fst (assign_loop rows 0 arts)"
    using as d by (simp_all add: assign_topics_def)
  have st': "arts' = fst (assign_topics (Some rows) arts)" using st by (simp add: assign_topics_def)
  from assign_loop_marked[OF ok i] st
  have m: "(i < length rows \<longrightarrow> assigned (arts' ! i) \<and> \<not> unassigned (arts' ! i)) \<and>
           (length rows \<le> i \<longrightarrow> unassigned (arts' ! i) \<and> \<not> assigned (arts' ! i))"
    by simp
  show "\<exists>ts rows.
               run_backend e alg (preprocessed_texts arts) n = Inr (Some ts, Some rows) \<and>
               arts' = fst (assign_topics (Some rows) arts) \<and>
               (i < length rows \<longrightarrow> assigned (arts' ! i) \<and> \<not> unassigned (arts' ! i)) \<and>
               (length rows \<le> i \<longrightarrow> unassigned (arts' ! i) \<and> \<not> assigned (arts' ! i))"
    using rb d st' m by blast
next
  assume b: "process_articles_for_topics e arts alg n = (arts', out) \<and>
          alg = ''bertopic'' \<and> BERTOPIC_AVAILABLE e"
  from process_articles_state[of e arts alg n arts' out] b
  show same: "arts' = arts" by (auto simp: assign_topics_def)
  assume "map_of (arts ! i) ''dominant_topic'' = None"
  then show "\<not> assigned (arts' ! i)" and "\<not> unassigned (arts' ! i)"
    using same by (simp_all add: assigned_def unassigned_def)
qed

theorem assignment_by_path_witness:
  "(1::nat) < length demo_articles \<and> (3::nat) < length demo_articles \<and>
   list_all (\<lambda>row. row \<noteq> []) [[3 / 4, 1 / 4], [1 / 2, 1 / 2], [1 / 4, 3 / 4 :: rat]] \<and>
   snd (assign_topics (Some [[3 / 4, 1 / 4], [1 / 2, 1 / 2], [1 / 4, 3 / 4]]) demo_articles) = None \<and>
   process_articles_for_topics demo_env demo_articles ''lda'' 2 =
     (demo_after, Returned (Some demo_result)) \<and>
   \<not> BERTOPIC_AVAILABLE demo_env \<and>
   assigned (demo_after ! 1) \<and> \<not> unassigned (demo_after ! 1) \<and>
   unassigned (demo_after ! 3) \<and> \<not> assigned (demo_after ! 3) \<and>
   process_articles_for_topics demo_bert_env demo_articles ''bertopic'' 2 =
     (demo_articles, Returned (Some demo_bert_result)) \<and>
   BERTOPIC_AVAILABLE demo_bert_env \<and>
   map_of (demo_articles ! 1) ''dominant_topic'' = None \<and>
   \<not> assigned (demo_articles ! 1) \<and> \<not> unassigned (demo_articles ! 1)"
proof -
  let ?rows = "[[3 / 4, 1 / 4], [1 / 2, 1 / 2], [1 / 4, 3 / 4 :: rat]]"
  have i1: "(1::nat) < length demo_articles" and i3: "(3::nat) < length demo_articles"
    by (simp_all add: demo_articles_def)
  have r: "list_all (\<lambda>row. row \<noteq> []) ?rows" by simp
  have nb: "\<not> BERTOPIC_AVAILABLE demo_env" by (simp add: demo_env_def)
  have b: "BERTOPIC_AVAILABLE demo_bert_env" by (simp add: demo_bert_env_def)
  have f: "map_of (demo_articles ! 1) ''dominant_topic'' = None"
    by (simp add: demo_articles_def)
  have rb: "\<exists>ts. run_backend demo_env ''lda'' (preprocessed_texts demo_articles) 2 =
              Inr (Some ts, Some ?rows)"
    by (simp add: eval_defs)
  note t1 = assignment_by_path[OF i1, of ?rows demo_env "''lda''" 2 demo_after demo_result
      "Returned (Some demo_result)"]
  note t3 = assignment_by_path[OF i3, of ?rows demo_env "''lda''" 2 demo_after demo_result
      "Returned (Some demo_result)"]
  note tb = assignment_by_path[OF i1, of ?rows demo_bert_env "''bertopic''" 2 demo_articles
      demo_bert_result "Returned (Some demo_bert_result)"]
  have a: "snd (assign_topics (Some ?rows) demo_articles) = None" using t1 r by blast
  have m1: "assigned (demo_after ! 1) \<and> \<not> unassigned (demo_after ! 1)"
  proof -
    from t1 demo_run nb obtain ts rows where
      "run_backend demo_env ''lda'' (preprocessed_texts demo_articles) 2 = Inr (Some ts, Some rows)"
      and c: "(1 < length rows \<longrightarrow> assigned (demo_after ! 1) \<and> \<not> unassigned (demo_after ! 1))"
      by blast
    with rb have "rows = ?rows" by auto
    then show ?thesis using c by simp
  qed
  have m3: "unassigned (demo_after ! 3) \<and> \<not> assigned (demo_after ! 3)"
  proof -
    from t3 demo_run nb obtain ts rows where
      "run_backend demo_env ''lda'' (preprocessed_texts demo_articles) 2 = Inr (Some ts, Some rows)"
      and c: "(length rows \<le> 3 \<longrightarrow> unassigned (demo_after ! 3) \<and> \<not> assigned (demo_after ! 3))"
      by blast
    with rb have "rows = ?rows" by auto
    then show ?thesis using c by simp
  qed
  have mb: "\<not> assigned (demo_articles ! 1) \<and> \<not> unassigned (demo_articles ! 1)"
    using tb demo_bert_run b f by blast
  show ?thesis using i1 i3 r a demo_run nb m1 m3 demo_bert_run b f mb by blast
qed

section \<open>A corpus with no text\<close>






section \<open>The order of the sources\<close>

lemma run_backend_hash:
  "run_backend (e\<lparr>hash_rank := h\<rparr>) alg texts n = run_backend e alg texts n"
  by (simp add: run_backend_def perform_nmf_def perform_lda_sklearn_def try_bertopic_def)

lemma newspapers_of_hash:
  "newspapers_of e arts = Inr ns \<Longrightarrow>
   \<exists>ns'. newspapers_of (e\<lparr>hash_rank := h\<rparr>) arts = Inr ns' \<and> distinct ns' \<and> set ns' = set ns"
  by (auto simp: newspapers_of_def Let_def distinct_list_of_set set_list_of_set split: if_splits)

lemma finish_topic_same:
  assumes "distinct ns" "distinct ns'" "set ns = set ns'"
  shows "same_topic_stats (finish_topic arts ns abt t) (finish_topic arts ns' abt t)"
  using assms(3)
  by (simp add: same_topic_stats_def finish_topic_def Let_def
      newspaper_stats_distinct[OF assms(1)] newspaper_stats_distinct[OF assms(2)])

lemma extract_topics_order: "map topic_id (extract_topics comps) = map int [0..<length comps]"
proof -
  have "map topic_id (extract_topics comps) = map (\<lambda>p. int (fst p)) (enumerate 0 comps)"
    by (simp add: extract_topics_def case_prod_beta)
  also have "\<dots> = map int (map fst (enumerate 0 comps))" by (simp only: map_map comp_def)
  also have "\<dots> = map int [0..<length comps]" by (simp only: map_fst_enumerate add_0)
  finally show ?thesis .
qed

lemma run_backend_order:
  assumes "run_backend e alg texts n = Inr (Some ts, dists)"
    and "\<not> (alg = ''bertopic'' \<and> BERTOPIC_AVAILABLE e)"
  shows "map topic_id ts = map int [0..<length ts]"
proof -
  obtain comps where "ts = extract_topics comps"
    using assms
    by (auto simp: run_backend_def unpack_sk_def perform_nmf_def perform_lda_sklearn_def
        split: if_splits sum.splits sk_ret.splits)
  then show ?thesis using extract_topics_order[of comps] by (simp add: extract_topics_def)
qed

text \<open>
  Claim C1, counterexample. The same articles, algorithm, number of topics and backend, in two processes that
  iterate a set in different orders: the results differ, and in the second the keys of
  \<^verbatim>\<open>newspaper_counts\<close> come as Beta, Alpha, which is not the sorted order.
\<close>

theorem source_order_follows_hash:
  "process_articles_for_topics demo_env demo_articles ''lda'' 2 =
     (demo_after, Returned (Some demo_result)) \<and>
   process_articles_for_topics demo_env2 demo_articles ''lda'' 2 =
     (demo_after, Returned (Some demo_result2)) \<and>
   demo_env2 = demo_env\<lparr>hash_rank := hash_rank demo_env2\<rparr> \<and>
   demo_result2 \<noteq> demo_result \<and>
   map fst (newspaper_counts (hd (topics demo_result2))) = [PStr ''Beta'', PStr ''Alpha''] \<and>
   map fst (newspaper_weights (hd (topics demo_result2))) = [PStr ''Beta'', PStr ''Alpha'']"
  by (simp add: demo_run demo_run2)
     (simp add: demo_env2_def demo_result2_def demo_result_def demo_topics_def)

text \<open>
  Claim C1, amended. For the same articles, algorithm, number of topics, date and
  backend, a run in a process with any other set order returns a result too, leaves
  the articles in the same state, and its result is the same except for the order of
  the keys of \<^verbatim>\<open>newspaper_counts\<close> and \<^verbatim>\<open>newspaper_weights\<close>: same topics in the same
  order, same articles, same set of entries. The keys come in the order in which the
  process iterates the set of the sources, nothing sorts them; with a scikit-learn
  backend the topics come with the ids 0, 1, ... in ascending order.
\<close>

theorem result_up_to_source_order:
  assumes run: "process_articles_for_topics e arts alg n = (arts', Returned (Some r))"
  shows "(\<exists>r'. process_articles_for_topics (e\<lparr>hash_rank := h\<rparr>) arts alg n =
                 (arts', Returned (Some r')) \<and> same_up_to_source_order r r') \<and>
         list_all (\<lambda>t. map fst (newspaper_counts t) =
                          list_of_set e (map (\<lambda>a. dict_get a ''newspaper'' (PStr [])) arts) \<and>
                        map fst (newspaper_weights t) =
                          list_of_set e (map (\<lambda>a. dict_get a ''newspaper'' (PStr [])) arts))
           (topics r) \<and>
         (\<not> (alg = ''bertopic'' \<and> BERTOPIC_AVAILABLE e) \<longrightarrow>
            map topic_id (topics r) = map int [0..<num_topics r])"
proof -
  from process_SomeD[OF run] obtain ts dists abt ns where h:
    "preprocessed_texts arts \<noteq> []"
    "run_backend e alg (preprocessed_texts arts) n = Inr (Some ts, dists)"
    "ts \<noteq> []"
    "assign_topics dists arts = (arts', None)"
    "group_articles arts' (init_articles_by_topic ts) = Inr abt"
    "newspapers_of e arts' = Inr ns"
    "r = \<lparr>date = today e, algorithm = alg, num_articles = length arts',
         num_topics = length ts, topics = map (finish_topic arts' ns abt) ts\<rparr>"
    by blast
  from newspapers_of_hash[OF h(6), of h] obtain ns' where ns':
    "newspapers_of (e\<lparr>hash_rank := h\<rparr>) arts' = Inr ns'" "distinct ns'" "set ns' = set ns"
    by blast
  have dns: "distinct ns" using newspapers_of_InrD[OF h(6)] by simp
  let ?r' = "\<lparr>date = today e, algorithm = alg, num_articles = length arts',
         num_topics = length ts, topics = map (finish_topic arts' ns' abt) ts\<rparr>"
  have run': "process_articles_for_topics (e\<lparr>hash_rank := h\<rparr>) arts alg n =
                (arts', Returned (Some ?r'))"
    using h(1-5) ns'(1) by (simp add: process_articles_for_topics_def run_backend_hash)
  have "list_all2 same_topic_stats (map (finish_topic arts' ns abt) ts)
          (map (finish_topic arts' ns' abt) ts)"
    using finish_topic_same[OF dns ns'(2) ns'(3)[symmetric]]
    by (simp add: list_all2_map1 list_all2_map2 list_all2_same)
  then have same: "same_up_to_source_order r ?r'"
    using h(7) by (simp add: same_up_to_source_order_def)
  have keys: "list_all (\<lambda>t. map fst (newspaper_counts t) =
                          list_of_set e (map (\<lambda>a. dict_get a ''newspaper'' (PStr [])) arts) \<and>
                        map fst (newspaper_weights t) =
                          list_of_set e (map (\<lambda>a. dict_get a ''newspaper'' (PStr [])) arts))
           (topics r)"
    unfolding list_all_iff
  proof
    fix t assume "t \<in> set (topics r)"
    from process_topicD[OF run this]
    show "map fst (newspaper_counts t) =
            list_of_set e (map (\<lambda>a. dict_get a ''newspaper'' (PStr [])) arts) \<and>
          map fst (newspaper_weights t) =
            list_of_set e (map (\<lambda>a. dict_get a ''newspaper'' (PStr [])) arts)"
      by (simp add: comp_def)
  qed
  have ord: "map topic_id (topics r) = map int [0..<num_topics r]"
    if "\<not> (alg = ''bertopic'' \<and> BERTOPIC_AVAILABLE e)"
  proof -
    have "map topic_id (topics r) = map topic_id ts"
      using h(7) by (simp add: finish_topic_def Let_def comp_def)
    then show ?thesis using run_backend_order[OF h(2) that] h(7) by simp
  qed
  show ?thesis using run' same keys ord by blast
qed

theorem result_up_to_source_order_witness:
  "process_articles_for_topics demo_env demo_articles ''lda'' 2 =
     (demo_after, Returned (Some demo_result)) \<and>
   process_articles_for_topics demo_env2 demo_articles ''lda'' 2 =
     (demo_after, Returned (Some demo_result2)) \<and>
   same_up_to_source_order demo_result demo_result2 \<and>
   \<not> BERTOPIC_AVAILABLE demo_env \<and>
   map topic_id (topics demo_result) = [0, 1]"
proof -
  have nb: "\<not> BERTOPIC_AVAILABLE demo_env" by (simp add: demo_env_def)
  from result_up_to_source_order[OF demo_run, of "hash_rank demo_env2"]
  obtain r' where r':
    "process_articles_for_topics (demo_env\<lparr>hash_rank := hash_rank demo_env2\<rparr>) demo_articles ''lda'' 2 =
       (demo_after, Returned (Some r'))"
    "same_up_to_source_order demo_result r'"
    by blast
  have "demo_env\<lparr>hash_rank := hash_rank demo_env2\<rparr> = demo_env2" by (simp add: demo_env2_def)
  then have "r' = demo_result2" using r'(1) demo_run2 by simp
  then have s: "same_up_to_source_order demo_result demo_result2" using r'(2) by simp
  have o: "map topic_id (topics demo_result) = [0, 1]"
    by (simp add: demo_result_def demo_topics_def)
  show ?thesis using demo_run demo_run2 s nb o by blast
qed

section \<open>The dominant topic\<close>

text \<open>
  \<open>np_argmax\<close> gives the first index of a maximum, and when every article has a text
  the loop gives each article the first arg-max of its own row.
\<close>

lemma argmax_from_spec:
  assumes "bi < length pre" "pre ! bi = best" "\<forall>j<length pre. pre ! j \<le> best"
    "\<forall>j<bi. pre ! j < best" "i = length pre"
  shows "argmax_from xs i best bi < length (pre @ xs) \<and>
         (\<forall>j<length (pre @ xs). (pre @ xs) ! j \<le> (pre @ xs) ! argmax_from xs i best bi) \<and>
         (\<forall>j<argmax_from xs i best bi. (pre @ xs) ! j < (pre @ xs) ! argmax_from xs i best bi)"
  using assms
proof (induction xs arbitrary: pre i best bi)
  case Nil
  then show ?case by simp
next
  case (Cons x xs)
  show ?case
  proof (cases "best < x")
    case True
    have "argmax_from xs (Suc i) x i < length ((pre @ [x]) @ xs) \<and>
         (\<forall>j<length ((pre @ [x]) @ xs). ((pre @ [x]) @ xs) ! j \<le> ((pre @ [x]) @ xs) ! argmax_from xs (Suc i) x i) \<and>
         (\<forall>j<argmax_from xs (Suc i) x i. ((pre @ [x]) @ xs) ! j < ((pre @ [x]) @ xs) ! argmax_from xs (Suc i) x i)"
    proof (rule Cons.IH)
      show "i < length (pre @ [x])" using Cons.prems by simp
      show "(pre @ [x]) ! i = x" using Cons.prems by simp
      show "\<forall>j<length (pre @ [x]). (pre @ [x]) ! j \<le> x"
        using Cons.prems True by (auto simp: nth_append less_Suc_eq intro: less_imp_le order.trans)
      show "\<forall>j<i. (pre @ [x]) ! j < x"
        using Cons.prems True by (auto simp: nth_append intro: le_less_trans)
      show "Suc i = length (pre @ [x])" using Cons.prems by simp
    qed
    then show ?thesis using True by simp
  next
    case False
    have "argmax_from xs (Suc i) best bi < length ((pre @ [x]) @ xs) \<and>
         (\<forall>j<length ((pre @ [x]) @ xs). ((pre @ [x]) @ xs) ! j \<le> ((pre @ [x]) @ xs) ! argmax_from xs (Suc i) best bi) \<and>
         (\<forall>j<argmax_from xs (Suc i) best bi. ((pre @ [x]) @ xs) ! j < ((pre @ [x]) @ xs) ! argmax_from xs (Suc i) best bi)"
    proof (rule Cons.IH)
      show "bi < length (pre @ [x])" using Cons.prems by simp
      show "(pre @ [x]) ! bi = best" using Cons.prems by (simp add: nth_append)
      show "\<forall>j<length (pre @ [x]). (pre @ [x]) ! j \<le> best"
        using Cons.prems False by (auto simp: nth_append less_Suc_eq)
      show "\<forall>j<bi. (pre @ [x]) ! j < best"
        using Cons.prems by (auto simp: nth_append)
      show "Suc i = length (pre @ [x])" using Cons.prems by simp
    qed
    then show ?thesis using False by simp
  qed
qed

lemma np_argmax_first_max:
  assumes "np_argmax xs = Some k"
  shows "k < length xs \<and> (\<forall>j<length xs. xs ! j \<le> xs ! k) \<and> (\<forall>j<k. xs ! j < xs ! k)"
proof (cases xs)
  case Nil
  then show ?thesis using assms by (simp add: np_argmax_def)
next
  case (Cons x ys)
  then have k: "k = argmax_from ys 1 x 0" using assms by (simp add: np_argmax_def)
  have "argmax_from ys 1 x 0 < length ([x] @ ys) \<and>
         (\<forall>j<length ([x] @ ys). ([x] @ ys) ! j \<le> ([x] @ ys) ! argmax_from ys 1 x 0) \<and>
         (\<forall>j<argmax_from ys 1 x 0. ([x] @ ys) ! j < ([x] @ ys) ! argmax_from ys 1 x 0)"
    by (rule argmax_from_spec) simp_all
  then show ?thesis using k Cons by simp
qed

lemma text_index_all_text:
  "list_all has_text arts \<Longrightarrow> i \<le> length arts \<Longrightarrow> text_index arts i = i"
proof -
  assume a: "list_all has_text arts" and i: "i \<le> length arts"
  have "filter has_text (take i arts) = take i arts"
    by (rule filter_True) (use a in \<open>auto simp: list_all_iff dest: in_set_takeD\<close>)
  then show ?thesis using i by (simp add: text_index_def)
qed

lemma dominant_topic_aligned:
  assumes "list_all has_text arts" and "list_all (\<lambda>row. row \<noteq> []) ds"
    and "i < length arts" and "i < length ds"
  shows "\<exists>k. np_argmax (ds ! text_index arts i) = Some k \<and>
             map_of (fst (assign_topics (Some ds) arts) ! i) ''dominant_topic'' = Some (PInt (int k))"
proof -
  have ok: "snd (assign_loop ds 0 arts) = None"
    using assms(2) by (intro assign_loop_ok) (simp add: list_all_iff)
  have ti: "text_index arts i = i" using assms(1,3) by (simp add: text_index_all_text)
  have "ds ! i \<noteq> []" using assms(2,4) by (simp add: list_all_iff)
  then obtain k where k: "np_argmax (ds ! i) = Some k" using np_argmax_Some by blast
  then show ?thesis
    using assign_loop_nth[OF ok assms(3)] assms(4) ti by (simp add: assign_topics_def)
qed

text \<open>
  When some article has no text and the array has one row per text, the last article
  is marked -1 whatever its text and whatever the rows.
\<close>

lemma last_article_unassigned:
  assumes rows: "list_all (\<lambda>row. row \<noteq> []) ds"
    and one_row_per_text: "length ds = length (filter has_text arts)"
    and some_empty: "\<not> list_all has_text arts"
  shows "arts \<noteq> [] \<and> unassigned (last (fst (assign_topics (Some ds) arts)))"
proof -
  from some_empty obtain a where a: "a \<in> set arts" "\<not> has_text a"
    by (auto simp: list_all_iff)
  then have ne: "arts \<noteq> []" by auto
  have less: "length ds < length arts"
    unfolding one_row_per_text using a by (rule length_filter_less)
  have ok: "snd (assign_loop ds 0 arts) = None"
    using rows by (intro assign_loop_ok) (simp add: list_all_iff)
  have i: "length arts - 1 < length arts" using ne by simp
  have ne': "fst (assign_loop ds 0 arts) \<noteq> []"
  proof
    assume "fst (assign_loop ds 0 arts) = []"
    then have "length (fst (assign_loop ds 0 arts)) = 0" by simp
    then have "length arts = 0" by (simp only: length_assign_loop)
    with ne show False by simp
  qed
  have "last (fst (assign_loop ds 0 arts)) = fst (assign_loop ds 0 arts) ! (length arts - 1)"
    using last_conv_nth[OF ne'] by (simp only: length_assign_loop)
  then show ?thesis
    using assign_loop_nth[OF ok i] less ne by (simp add: assign_topics_def unassigned_def)
qed

text \<open>
  Claim C7. The dominant topic of a document is the first arg-max of the distribution
  of that document. The code pairs article \<open>i\<close> of the whole list with row \<open>i\<close> of an
  array that has one row per text that is not empty. In the small run the first
  article has no text, and it gets the topic of the row of the second article. The
  third article, whose own row is a tie with its first maximum at 0, gets topic 1 from
  the row of the fourth; the fourth, whose own row has its maximum at 1, is marked -1.
\<close>

theorem dominant_topic_misaligned:
  "preprocessed_texts demo_articles =
     [PStr ''governo legge'', PStr ''governo calcio'', PStr ''calcio legge''] \<and>
   lda_fit demo_env [PStr ''governo legge'', PStr ''governo calcio'', PStr ''calcio legge''] 2 =
     Inr \<lparr>components = [([''governo'', ''legge''], [2, 1]), ([''calcio'', ''legge''], [3, 1])],
          doc_topic = [[3 / 4, 1 / 4], [1 / 2, 1 / 2], [1 / 4, 3 / 4]]\<rparr> \<and>
   \<not> has_text (demo_articles ! 0) \<and>
   map_of (fst (process_articles_for_topics demo_env demo_articles ''lda'' 2) ! 0) ''dominant_topic'' =
     Some (PInt 0) \<and>
   has_text (demo_articles ! 2) \<and> text_index demo_articles 2 = 1 \<and>
   np_argmax ([[3 / 4, 1 / 4], [1 / 2, 1 / 2], [1 / 4, 3 / 4]] ! 1) = Some 0 \<and>
   map_of (fst (process_articles_for_topics demo_env demo_articles ''lda'' 2) ! 2) ''dominant_topic'' =
     Some (PInt 1) \<and>
   has_text (demo_articles ! 3) \<and> text_index demo_articles 3 = 2 \<and>
   np_argmax ([[3 / 4, 1 / 4], [1 / 2, 1 / 2], [1 / 4, 3 / 4]] ! 2) = Some 1 \<and>
   map_of (fst (process_articles_for_topics demo_env demo_articles ''lda'' 2) ! 3) ''dominant_topic'' =
     Some (PInt (- 1))"
  by (simp add: demo_run)
     (simp add: demo_after_def demo_articles_def demo_env_def demo_fit_def demo_row_def
        preprocessed_texts_def has_text_def dict_get_def text_index_def np_argmax_def)

end
